theory Spec2Isabelle
  imports Main
begin

section \<open>JavaScript values, command line and environment\<close>

text \<open>
  The script \<^verbatim>\<open>bin/storyblok-translate-slugs.mjs\<close> reads its options from the object
  that minimist builds from the command line and from \<^verbatim>\<open>process.env\<close>. The values minimist
  stores are strings, numbers (a numeric-looking value is converted), booleans (a bare flag
  is \<^verbatim>\<open>true\<close>) and arrays (a repeated flag). Numbers are kept at integer precision: the
  script only tests them for truthiness and never computes with them.
\<close>

datatype js_value =
    JUndefined
  | JNull
  | JBool bool
  | JNum int
  | JStr string
  | JArr "js_value list"
  | JObj "(string \<times> js_value) list"

text \<open>JavaScript's ToBoolean, as used by \<^verbatim>\<open>!x\<close>, \<^verbatim>\<open>x || y\<close> and \<^verbatim>\<open>x ? a : b\<close>.\<close>

fun truthy :: "js_value \<Rightarrow> bool" where
  "truthy JUndefined = False"
| "truthy JNull = False"
| "truthy (JBool b) = b"
| "truthy (JNum n) = (n \<noteq> 0)"
| "truthy (JStr s) = (s \<noteq> [])"
| "truthy (JArr xs) = True"
| "truthy (JObj kvs) = True"

text \<open>\<^verbatim>\<open>a || b\<close>\<close>

definition js_or :: "js_value \<Rightarrow> js_value \<Rightarrow> js_value" where
  "js_or a b = (if truthy a then a else b)"

type_synonym argv = "string \<rightharpoonup> js_value"
type_synonym environ = "string \<rightharpoonup> string"

text \<open>\<^verbatim>\<open>'k' in args\<close>\<close>

definition has_arg :: "argv \<Rightarrow> string \<Rightarrow> bool" where
  "has_arg args k = (args k \<noteq> None)"

text \<open>\<^verbatim>\<open>args.k\<close> or \<^verbatim>\<open>args['k']\<close>: \<^verbatim>\<open>undefined\<close> when the key is absent.\<close>

definition arg :: "argv \<Rightarrow> string \<Rightarrow> js_value" where
  "arg args k = (case args k of None \<Rightarrow> JUndefined | Some v \<Rightarrow> v)"

text \<open>\<^verbatim>\<open>process.env.K\<close>: a string, or \<^verbatim>\<open>undefined\<close> when the variable is not set.\<close>

definition env_value :: "environ \<Rightarrow> string \<Rightarrow> js_value" where
  "env_value env k = (case env k of None \<Rightarrow> JUndefined | Some s \<Rightarrow> JStr s)"

text \<open>
  \<^verbatim>\<open>s.split(',')\<close> on a string: the pieces between the commas, empty pieces kept. (The
  last case of the inner \<open>case\<close> cannot arise: the result is never the empty list.)
\<close>

fun split_comma :: "string \<Rightarrow> string list" where
  "split_comma [] = [[]]"
| "split_comma (c # cs) =
     (if c = CHR '','' then [] # split_comma cs
      else (case split_comma cs of
              w # ws \<Rightarrow> (c # w) # ws
            | [] \<Rightarrow> [[c]]))"

section \<open>Data model\<close>

text \<open>An item of a story's \<^verbatim>\<open>localized_paths\<close>.\<close>

record localized_path =
  lang :: string
  published :: bool

text \<open>The object pushed to \<^verbatim>\<open>translated_slugs_attributes\<close>: \<^verbatim>\<open>{lang, slug, name}\<close>.\<close>

record translated_slug =
  entry_lang :: string
  entry_slug :: string
  entry_name :: string

text \<open>
  A story as the Management API returns it. \<^verbatim>\<open>localized_paths\<close> and
  \<^verbatim>\<open>translated_slugs_attributes\<close> are keys the script tests with \<^verbatim>\<open>in\<close>, so they are
  optional; \<open>other_fields\<close> holds every key of the JSON object the script never touches.
\<close>

record story =
  story_id :: nat
  slug :: string
  name :: string
  full_slug :: string
  is_folder :: bool
  content_type :: string
  localized_paths :: "localized_path list option"
  translated_slugs_attributes :: "translated_slug list option"
  other_fields :: "(string \<times> js_value) list"

text \<open>The body of the PUT: \<^verbatim>\<open>{story: story, ...(args.publish ? {publish: 1} : {})}\<close>.\<close>

record put_payload =
  payload_story :: story
  payload_publish :: bool

text \<open>What \<^verbatim>\<open>translator.translateText\<close> resolves to.\<close>

record translation_result =
  translated_text :: string
  billedCharacters :: int
  detectedSourceLang :: string

text \<open>Every \<^verbatim>\<open>console.log\<close> of the script (the elapsed wall-clock time is left out).\<close>

datatype message =
    Usage
  | ErrToken
  | ErrSpace
  | ErrRegion
  | ErrDeeplApiKey
  | ErrDetectedSourceLang string string
  | ErrLocalizedPaths string
  | NoLocalesStated
  | FetchingSpaceLocales
  | Blank
  | PerformingTranslation js_value
  | Mode bool bool
  | SourceLocale js_value
  | TargetLocales "string list"
  | ContentTypes "string list"
  | SkippedStories "string list"
  | OnlyStories "string list"
  | FetchingStories
  | ProcessingStories
  | DefaultFullSlug string
  | DefaultName string
  | SkippedTranslation string
  | NoTranslationsNeeded
  | UpdatedTranslatedSlugs "translated_slug list"
  | DryRunNoChanges
  | UpdateSuccessful
  | Finished
  | TotalBilled int

text \<open>
  The observable effects of a run, in the order they happen: console output and the calls
  to the two external APIs. A translation call carries what it resolved to (\<open>None\<close> when
  the call rejected).
\<close>

datatype event =
    Log message
  | GetSpace js_value
  | GetAll js_value
  | GetStory js_value nat
  | TranslateText string js_value string "translation_result option"
  | Put js_value nat put_payload

text \<open>
  The external collaborators. Each call either resolves (\<open>Some\<close>, \<open>True\<close>) or rejects,
  which the script never catches. The translation service may answer the same request
  differently over time, so its answer depends on the number of calls made before.
  \<^verbatim>\<open>slugify\<close> is the imported package \<^verbatim>\<open>@sindresorhus/slugify\<close>.
\<close>

record world =
  translateText :: "nat \<Rightarrow> string \<Rightarrow> js_value \<Rightarrow> string \<Rightarrow> translation_result option"
  get_space :: "js_value \<Rightarrow> string list option"
  getAll :: "js_value \<Rightarrow> story list option"
  get_story :: "js_value \<Rightarrow> nat \<Rightarrow> story option"
  put_story :: "js_value \<Rightarrow> nat \<Rightarrow> put_payload \<Rightarrow> bool"
  slugify_impl :: "string \<Rightarrow> string"

text \<open>How the process ends: \<^verbatim>\<open>process.exit(n)\<close>, or an uncaught error (Node exits with 1).\<close>

datatype halt = ProcessExit nat | UncaughtError

fun exit_code :: "halt \<Rightarrow> nat" where
  "exit_code (ProcessExit n) = n"
| "exit_code UncaughtError = 1"

text \<open>The resolved options (lines 71 to 115 of the script).\<close>

record config =
  oauthToken :: js_value
  spaceId :: js_value
  region :: js_value
  verbose :: bool
  deeplApiKey :: js_value
  sourceLang :: js_value
  contentTypes :: "string list"
  locales :: "string list"
  skipStories :: "string list"
  onlyStories :: "string list"
  overwrite :: bool
  publish :: bool
  dry_run :: bool

text \<open>The two module-level variables of the script, and the effects so far.\<close>

record run_state =
  detectedSourceLangVar :: "string option"
  totalBilledCharacters :: int
  trace :: "event list"

definition init_state :: run_state where
  "init_state = \<lparr>detectedSourceLangVar = None, totalBilledCharacters = 0, trace = []\<rparr>"

definition emit :: "event \<Rightarrow> run_state \<Rightarrow> run_state" where
  "emit e st = st\<lparr>trace := trace st @ [e]\<rparr>"

definition log :: "message \<Rightarrow> run_state \<Rightarrow> run_state" where
  "log m st = emit (Log m) st"

definition log_if :: "bool \<Rightarrow> message \<Rightarrow> run_state \<Rightarrow> run_state" where
  "log_if b m st = (if b then log m st else st)"

section \<open>Configuration\<close>

text \<open>\<^verbatim>\<open>args[k] ? args[k].split(',') : dflt\<close>; only a string has a \<^verbatim>\<open>split\<close> method.\<close>

definition split_arg :: "js_value \<Rightarrow> string list \<Rightarrow> halt + string list" where
  "split_arg v dflt =
     (if truthy v then (case v of JStr s \<Rightarrow> Inr (split_comma s) | _ \<Rightarrow> Inl UncaughtError)
      else Inr dflt)"

definition regions :: "js_value list" where
  "regions = [JStr ''eu'', JStr ''us'', JStr ''ap'', JStr ''ca'', JStr ''cn'']"

text \<open>Lines 87 to 95: \<open>None\<close> is the invalid-region exit.\<close>

definition resolve_region :: "argv \<Rightarrow> environ \<Rightarrow> js_value option" where
  "resolve_region args env =
     (if has_arg args ''region'' \<or> truthy (env_value env ''STORYBLOK_REGION'') then
        (let region = js_or (arg args ''region'') (env_value env ''STORYBLOK_REGION'')
         in if region \<in> set regions then Some region else None)
      else Some (JStr ''eu''))"

definition resolve_config :: "argv \<Rightarrow> environ \<Rightarrow> run_state \<Rightarrow> (halt + config) \<times> run_state" where
  "resolve_config args env st =
     (if \<not> has_arg args ''token'' \<and> \<not> truthy (env_value env ''STORYBLOK_OAUTH_TOKEN'') then
        (Inl (ProcessExit 1), log ErrToken st)
      else if \<not> has_arg args ''space'' \<and> \<not> truthy (env_value env ''STORYBLOK_SPACE_ID'') then
        (Inl (ProcessExit 1), log ErrSpace st)
      else
        (case resolve_region args env of
           None \<Rightarrow> (Inl (ProcessExit 1), log ErrRegion st)
         | Some region_v \<Rightarrow>
             if \<not> has_arg args ''deepl-api-key'' \<and> \<not> truthy (env_value env ''DEEPL_API_KEY'') then
               (Inl (ProcessExit 1), log ErrDeeplApiKey st)
             else
               (case split_arg (arg args ''content-types'') [''page''] of
                  Inl h \<Rightarrow> (Inl h, st)
                | Inr contentTypes_v \<Rightarrow>
               (case split_arg (arg args ''locales'') [] of
                  Inl h \<Rightarrow> (Inl h, st)
                | Inr locales_v \<Rightarrow>
               (case split_arg (arg args ''skip-stories'') [] of
                  Inl h \<Rightarrow> (Inl h, st)
                | Inr skipStories_v \<Rightarrow>
               (case split_arg (arg args ''only-stories'') [] of
                  Inl h \<Rightarrow> (Inl h, st)
                | Inr onlyStories_v \<Rightarrow>
                    (Inr \<lparr>oauthToken = js_or (arg args ''token'') (env_value env ''STORYBLOK_OAUTH_TOKEN''),
                          spaceId = js_or (arg args ''space'') (env_value env ''STORYBLOK_SPACE_ID''),
                          region = region_v,
                          verbose = has_arg args ''verbose'',
                          deeplApiKey = js_or (arg args ''deepl-api-key'') (env_value env ''DEEPL_API_KEY''),
                          sourceLang = js_or (arg args ''source-lang'') JNull,
                          contentTypes = contentTypes_v,
                          locales = locales_v,
                          skipStories = skipStories_v,
                          onlyStories = onlyStories_v,
                          overwrite = truthy (arg args ''overwrite''),
                          publish = truthy (arg args ''publish''),
                          dry_run = truthy (arg args ''dry-run'')\<rparr>, st)))))))"

section \<open>Translation\<close>

fun is_translate :: "event \<Rightarrow> bool" where
  "is_translate (TranslateText t s l r) = True"
| "is_translate e = False"

text \<open>The number of translation calls made so far: the index of the next one.\<close>

definition translate_calls :: "event list \<Rightarrow> nat" where
  "translate_calls tr = length (filter is_translate tr)"

text \<open>
  Lines 129 to 147. The billed characters are added before the consistency check.
  \<^verbatim>\<open>!detectedSourceLang\<close> holds for \<^verbatim>\<open>null\<close> and for the empty string.
\<close>

definition translate :: "world \<Rightarrow> config \<Rightarrow> string \<Rightarrow> string \<Rightarrow> run_state \<Rightarrow> (halt + string) \<times> run_state" where
  "translate w cfg txt targetLang st =
     (case translateText w (translate_calls (trace st)) txt (sourceLang cfg) targetLang of
        None \<Rightarrow> (Inl UncaughtError, emit (TranslateText txt (sourceLang cfg) targetLang None) st)
      | Some translationResult \<Rightarrow>
          (let st1 = (emit (TranslateText txt (sourceLang cfg) targetLang (Some translationResult)) st)
                       \<lparr>totalBilledCharacters :=
                          totalBilledCharacters st + billedCharacters translationResult\<rparr>
           in if sourceLang cfg = JNull then
                (case detectedSourceLangVar st1 of
                   None \<Rightarrow>
                     (Inr (translated_text translationResult),
                      st1\<lparr>detectedSourceLangVar := Some (detectedSourceLang translationResult)\<rparr>)
                 | Some previous \<Rightarrow>
                     if previous = [] then
                       (Inr (translated_text translationResult),
                        st1\<lparr>detectedSourceLangVar := Some (detectedSourceLang translationResult)\<rparr>)
                     else if detectedSourceLang translationResult \<noteq> previous then
                       (Inl (ProcessExit 1),
                        log (ErrDetectedSourceLang (detectedSourceLang translationResult) previous) st1)
                     else (Inr (translated_text translationResult), st1))
              else (Inr (translated_text translationResult), st1)))"

section \<open>The per-story, per-locale loop\<close>

text \<open>\<^verbatim>\<open>story.translated_slugs_attributes\<close> after the list has been created if absent.\<close>

definition attributes_of :: "story \<Rightarrow> translated_slug list" where
  "attributes_of s = (case translated_slugs_attributes s of None \<Rightarrow> [] | Some l \<Rightarrow> l)"

text \<open>
  \<^verbatim>\<open>existingTranslation && existingTranslation.published && !args.overwrite\<close>, where
  \<^verbatim>\<open>existingTranslation\<close> is the first item of \<^verbatim>\<open>localized_paths\<close> for the locale.
\<close>

definition skip_locale :: "config \<Rightarrow> localized_path list \<Rightarrow> string \<Rightarrow> bool" where
  "skip_locale cfg lps locale =
     (case find (\<lambda>item. lang item = locale) lps of
        None \<Rightarrow> False
      | Some existingTranslation \<Rightarrow> published existingTranslation \<and> \<not> overwrite cfg)"

text \<open>The body of the inner loop, lines 202 to 240.\<close>

definition process_locale :: "world \<Rightarrow> config \<Rightarrow> string \<Rightarrow> story \<Rightarrow> run_state \<Rightarrow> (halt + story) \<times> run_state" where
  "process_locale w cfg locale s st =
     (case localized_paths s of
        None \<Rightarrow> (Inl (ProcessExit 1), log (ErrLocalizedPaths (full_slug s)) st)
      | Some lps \<Rightarrow>
          if skip_locale cfg lps locale then
            (Inr s, log_if (verbose cfg) (SkippedTranslation locale) st)
          else
            (case translate w cfg (slug s) locale st of
               (Inl h, st1) \<Rightarrow> (Inl h, st1)
             | (Inr slugTranslateResult, st1) \<Rightarrow>
                 (let translatedSlug = slugify_impl w slugTranslateResult
                  in case translate w cfg (name s) locale st1 of
                       (Inl h, st2) \<Rightarrow> (Inl h, st2)
                     | (Inr translatedName, st2) \<Rightarrow>
                         (Inr (s\<lparr>translated_slugs_attributes :=
                                   Some (attributes_of s @
                                         [\<lparr>entry_lang = locale, entry_slug = translatedSlug,
                                           entry_name = translatedName\<rparr>])\<rparr>),
                          st2))))"

fun process_locales :: "world \<Rightarrow> config \<Rightarrow> string list \<Rightarrow> story \<Rightarrow> run_state \<Rightarrow> (halt + story) \<times> run_state" where
  "process_locales w cfg [] s st = (Inr s, st)"
| "process_locales w cfg (locale # rest) s st =
     (case process_locale w cfg locale s st of
        (Inl h, st1) \<Rightarrow> (Inl h, st1)
      | (Inr s1, st1) \<Rightarrow> process_locales w cfg rest s1 st1)"

text \<open>Lines 195 to 199: the two lines printed before the inner loop in verbose mode.\<close>

definition story_header :: "config \<Rightarrow> story \<Rightarrow> run_state \<Rightarrow> run_state" where
  "story_header cfg s0 st =
     (if verbose cfg
      then log (DefaultName (name s0)) (log (DefaultFullSlug (full_slug s0)) (log Blank st))
      else st)"

text \<open>The body of the outer loop, lines 193 to 268.\<close>

definition process_story :: "world \<Rightarrow> config \<Rightarrow> story \<Rightarrow> run_state \<Rightarrow> (halt + unit) \<times> run_state" where
  "process_story w cfg s0 st =
     (let st0 = story_header cfg s0 st
      in case process_locales w cfg (locales cfg) s0 st0 of
           (Inl h, st1) \<Rightarrow> (Inl h, st1)
         | (Inr s, st1) \<Rightarrow>
             (case translated_slugs_attributes s of
                None \<Rightarrow> (Inr (), log_if (verbose cfg) NoTranslationsNeeded st1)
              | Some attrs \<Rightarrow>
                  (let st2 = log_if (verbose cfg) (UpdatedTranslatedSlugs attrs) st1
                   in if dry_run cfg then (Inr (), log_if (verbose cfg) DryRunNoChanges st2)
                      else
                        (let payload = \<lparr>payload_story = s, payload_publish = publish cfg\<rparr>;
                             st3 = emit (Put (spaceId cfg) (story_id s) payload) st2
                         in if put_story w (spaceId cfg) (story_id s) payload
                            then (Inr (), log_if (verbose cfg) UpdateSuccessful st3)
                            else (Inl UncaughtError, st3)))))"

fun process_stories :: "world \<Rightarrow> config \<Rightarrow> story list \<Rightarrow> run_state \<Rightarrow> (halt + unit) \<times> run_state" where
  "process_stories w cfg [] st = (Inr (), st)"
| "process_stories w cfg (s # rest) st =
     (case process_story w cfg s st of
        (Inl h, st1) \<Rightarrow> (Inl h, st1)
      | (Inr u, st1) \<Rightarrow> process_stories w cfg rest st1)"

section \<open>Fetching the stories\<close>

text \<open>The condition of lines 179 to 184.\<close>

definition select_story :: "config \<Rightarrow> story \<Rightarrow> bool" where
  "select_story cfg s =
     (\<not> is_folder s \<and>
      content_type s \<in> set (contentTypes cfg) \<and>
      full_slug s \<notin> set (skipStories cfg) \<and>
      (if onlyStories cfg \<noteq> [] then full_slug s \<in> set (onlyStories cfg) else True))"

text \<open>The loop of lines 178 to 188; \<open>stories\<close> is the array being filled.\<close>

fun fetch_stories :: "world \<Rightarrow> config \<Rightarrow> story list \<Rightarrow> story list \<Rightarrow> run_state \<Rightarrow> (halt + story list) \<times> run_state" where
  "fetch_stories w cfg [] stories st = (Inr stories, st)"
| "fetch_stories w cfg (s # rest) stories st =
     (if select_story cfg s then
        (let st1 = emit (GetStory (spaceId cfg) (story_id s)) st
         in case get_story w (spaceId cfg) (story_id s) of
              None \<Rightarrow> (Inl UncaughtError, st1)
            | Some storyData \<Rightarrow> fetch_stories w cfg rest (stories @ [storyData]) st1)
      else fetch_stories w cfg rest stories st)"

section \<open>The whole run\<close>

text \<open>Lines 150 to 155: the space's language codes are used when no locale was stated.\<close>

definition resolve_locales :: "world \<Rightarrow> config \<Rightarrow> run_state \<Rightarrow> (halt + string list) \<times> run_state" where
  "resolve_locales w cfg st =
     (if locales cfg = [] then
        (let st1 = emit (GetSpace (spaceId cfg)) (log FetchingSpaceLocales (log NoLocalesStated st))
         in case get_space w (spaceId cfg) of
              None \<Rightarrow> (Inl UncaughtError, st1)
            | Some codes \<Rightarrow> (Inr (locales cfg @ codes), st1))
      else (Inr (locales cfg), st))"

text \<open>Lines 158 to 171.\<close>

definition general_information :: "config \<Rightarrow> run_state \<Rightarrow> run_state" where
  "general_information cfg st =
     (let st1 = log (PerformingTranslation (spaceId cfg)) (log Blank st);
          st2 = log (Mode (dry_run cfg) (publish cfg)) st1;
          st3 = log (SourceLocale (sourceLang cfg)) st2;
          st4 = log (TargetLocales (locales cfg)) st3;
          st5 = log (ContentTypes (contentTypes cfg)) st4;
          st6 = log_if (skipStories cfg \<noteq> []) (SkippedStories (skipStories cfg)) st5
      in log_if (onlyStories cfg \<noteq> []) (OnlyStories (onlyStories cfg)) st6)"

text \<open>
  The script from top to bottom: how the process ends and the final state. The run
  always ends: with \<^verbatim>\<open>process.exit\<close> or with an uncaught error.
\<close>

definition main :: "world \<Rightarrow> argv \<Rightarrow> environ \<Rightarrow> halt \<times> run_state" where
  "main w args env =
     (if has_arg args ''help'' then (ProcessExit 0, log Usage init_state)
      else
        (case resolve_config args env init_state of
           (Inl h, st1) \<Rightarrow> (h, st1)
         | (Inr cfg0, st1) \<Rightarrow>
             (case resolve_locales w cfg0 st1 of
                (Inl h, st2) \<Rightarrow> (h, st2)
              | (Inr locales_v, st2) \<Rightarrow>
                  (let cfg = cfg0\<lparr>locales := locales_v\<rparr>;
                       st3 = general_information cfg st2;
                       st4 = emit (GetAll (spaceId cfg)) (log FetchingStories (log Blank st3))
                   in case getAll w (spaceId cfg) of
                        None \<Rightarrow> (UncaughtError, st4)
                      | Some storyList \<Rightarrow>
                          (case fetch_stories w cfg storyList [] st4 of
                             (Inl h, st5) \<Rightarrow> (h, st5)
                           | (Inr stories, st5) \<Rightarrow>
                               (case process_stories w cfg stories
                                       (log ProcessingStories (log Blank st5)) of
                                  (Inl h, st6) \<Rightarrow> (h, st6)
                                | (Inr u, st6) \<Rightarrow>
                                    (ProcessExit 0,
                                     log (TotalBilled (totalBilledCharacters st6))
                                       (log Finished (log Blank st6)))))))))"

section \<open>Reading a trace\<close>

fun is_put :: "event \<Rightarrow> bool" where
  "is_put (Put sp i p) = True"
| "is_put e = False"

fun result_of :: "event \<Rightarrow> translation_result option" where
  "result_of (TranslateText t s l r) = r"
| "result_of e = None"

text \<open>What the translation calls of a trace resolved to, in order.\<close>

definition results :: "event list \<Rightarrow> translation_result list" where
  "results tr = List.map_filter result_of tr"

definition billed_total :: "event list \<Rightarrow> int" where
  "billed_total tr = sum_list (map billedCharacters (results tr))"

text \<open>
  The variable \<^verbatim>\<open>detectedSourceLang\<close> agrees with every language reported so far
  (an empty report is no language).
\<close>

definition consistent :: "run_state \<Rightarrow> bool" where
  "consistent st =
     (\<forall>r \<in> set (results (trace st)).
        detectedSourceLang r \<noteq> [] \<longrightarrow> detectedSourceLangVar st = Some (detectedSourceLang r))"

text \<open>
  What the translation calls depend on and change: the two variables and the calls made
  so far.
\<close>

definition core :: "run_state \<Rightarrow> string option \<times> int \<times> event list" where
  "core st = (detectedSourceLangVar st, totalBilledCharacters st, filter is_translate (trace st))"

text \<open>The trace ends with a translation call and the source-language error it raised.\<close>

definition ends_with_mismatch :: "event list \<Rightarrow> bool" where
  "ends_with_mismatch tr =
     (case rev tr of
        Log (ErrDetectedSourceLang new previous) # TranslateText t s l (Some r) # pre \<Rightarrow>
          new = detectedSourceLang r \<and> new \<noteq> previous
      | _ \<Rightarrow> False)"

section \<open>A small space, for running the script on concrete inputs\<close>

definition story_home :: story where
  "story_home =
     \<lparr>story_id = 1, slug = ''home'', name = ''Home'', full_slug = ''home'',
      is_folder = False, content_type = ''page'',
      localized_paths = Some [],
      translated_slugs_attributes = None,
      other_fields = [(''uuid'', JStr ''0a1'')]\<rparr>"

definition story_about_us :: story where
  "story_about_us =
     \<lparr>story_id = 2, slug = ''about-us'', name = ''About Us'', full_slug = ''about-us'',
      is_folder = False, content_type = ''page'',
      localized_paths = Some [\<lparr>lang = ''de'', published = True\<rparr>,
                              \<lparr>lang = ''fr'', published = False\<rparr>],
      translated_slugs_attributes = None,
      other_fields = [(''uuid'', JStr ''0b2'')]\<rparr>"

text \<open>A story of a space without the Translatable Slugs app.\<close>

definition story_imprint :: story where
  "story_imprint =
     \<lparr>story_id = 3, slug = ''imprint'', name = ''Imprint'', full_slug = ''legal/imprint'',
      is_folder = False, content_type = ''page'',
      localized_paths = None,
      translated_slugs_attributes = None,
      other_fields = []\<rparr>"

definition folder_legal :: story where
  "folder_legal =
     \<lparr>story_id = 4, slug = ''legal'', name = ''Legal'', full_slug = ''legal'',
      is_folder = True, content_type = [],
      localized_paths = None,
      translated_slugs_attributes = None,
      other_fields = []\<rparr>"

definition hyphenate :: "string \<Rightarrow> string" where
  "hyphenate s = map (\<lambda>c. if c = CHR '' '' then CHR ''-'' else c) s"

text \<open>
  A space with two pages. The translation service prefixes the text with the target
  language, bills one character per character and always detects English.
\<close>

definition example_world :: world where
  "example_world =
     \<lparr>translateText = (\<lambda>n t s l. Some \<lparr>translated_text = l @ '' '' @ t,
                                          billedCharacters = int (length t),
                                          detectedSourceLang = ''EN''\<rparr>),
      get_space = (\<lambda>sp. Some [''de'', ''fr'']),
      getAll = (\<lambda>sp. Some [story_home, story_about_us]),
      get_story = (\<lambda>sp i. if i = 1 then Some story_home
                            else if i = 2 then Some story_about_us else None),
      put_story = (\<lambda>sp i p. True),
      slugify_impl = hyphenate\<rparr>"

text \<open>The same space, where the service detects French from its third call on.\<close>

definition mixed_world :: world where
  "mixed_world =
     example_world\<lparr>translateText :=
       (\<lambda>n t s l. Some \<lparr>translated_text = l @ '' '' @ t,
                         billedCharacters = int (length t),
                         detectedSourceLang = (if n < 2 then ''EN'' else ''FR'')\<rparr>)\<rparr>"

text \<open>
  A space without the Translatable Slugs app: a folder and one page, which has no
  \<^verbatim>\<open>localized_paths\<close>.
\<close>

definition plain_world :: world where
  "plain_world =
     example_world\<lparr>getAll := (\<lambda>sp. Some [folder_legal, story_imprint]),
                   get_story := (\<lambda>sp i. if i = 3 then Some story_imprint else None)\<rparr>"

text \<open>\<^verbatim>\<open>--token t0ken --space 12345 --deepl-api-key k3y --locales de\<close>\<close>

definition example_args :: argv where
  "example_args =
     [''token'' \<mapsto> JStr ''t0ken'', ''space'' \<mapsto> JNum 12345,
      ''deepl-api-key'' \<mapsto> JStr ''k3y'', ''locales'' \<mapsto> JStr ''de'']"

text \<open>The options these arguments resolve to.\<close>

definition example_config :: config where
  "example_config =
     \<lparr>oauthToken = JStr ''t0ken'', spaceId = JNum 12345, region = JStr ''eu'',
      verbose = False, deeplApiKey = JStr ''k3y'', sourceLang = JNull,
      contentTypes = [''page''], locales = [''de''], skipStories = [], onlyStories = [],
      overwrite = False, publish = False, dry_run = False\<rparr>"

text \<open>No environment variable is set.\<close>

definition no_env :: environ where
  "no_env = Map.empty"

text \<open>\<^verbatim>\<open>--help\<close> alone.\<close>

definition help_args :: argv where
  "help_args = [''help'' \<mapsto> JBool True]"

text \<open>\<^verbatim>\<open>--token t0ken --space 12345\<close>: no DeepL key.\<close>

definition keyless_args :: argv where
  "keyless_args = [''token'' \<mapsto> JStr ''t0ken'', ''space'' \<mapsto> JNum 12345]"

text \<open>
  \<^verbatim>\<open>--token "" --space 12345 --deepl-api-key k3y --locales de\<close>, as a wrapper script
  passes an unset variable, with the token set in the environment.
\<close>

definition empty_token_args :: argv where
  "empty_token_args = example_args(''token'' \<mapsto> JStr [])"

definition token_env :: environ where
  "token_env = [''STORYBLOK_OAUTH_TOKEN'' \<mapsto> ''fr0m-env'', ''STORYBLOK_REGION'' \<mapsto> ''us'']"

text \<open>\<^verbatim>\<open>--token t0ken --space 12345 --deepl-api-key k3y --locales fr\<close>\<close>

definition french_args :: argv where
  "french_args = example_args(''locales'' \<mapsto> JStr ''fr'')"

text \<open>The small run with \<^verbatim>\<open>--dry-run\<close>.\<close>

definition dry_args :: argv where
  "dry_args = example_args(''dry-run'' \<mapsto> JBool True)"

text \<open>The options of the small run with \<^verbatim>\<open>--dry-run\<close>.\<close>

definition dry_config :: config where
  "dry_config = example_config\<lparr>dry_run := True\<rparr>"

section \<open>Slugification\<close>

text \<open>
  Modelled from the spec: the function \<^verbatim>\<open>slugify\<close> that the script applies to the
  translated slug (line 226) is the imported package \<^verbatim>\<open>@sindresorhus/slugify\<close>; its
  code is not part of the source. The specification (section 4.3) describes it by four
  rules, in this order: lowercasing, diacritic stripping, whitespace-to-hyphen, stripping
  of disallowed characters. It gives no character tables, so a character is modelled by
  what the four rules can see of it: a letter with its base letter, its case and its
  diacritic (0 for none), a digit, a whitespace character, the hyphen, or any other
  symbol. Letters, digits and the hyphen are the characters of a URL-safe path segment;
  everything else is disallowed. In the model of a run above, the package is the parameter
  \<open>slugify_impl\<close> of the world.
\<close>

datatype slug_char =
    Letter nat bool nat
  | Digit nat
  | Whitespace
  | Hyphen
  | Symbol nat

fun lowercase :: "slug_char \<Rightarrow> slug_char" where
  "lowercase (Letter base upper mark) = Letter base False mark"
| "lowercase c = c"

fun strip_diacritic :: "slug_char \<Rightarrow> slug_char" where
  "strip_diacritic (Letter base upper mark) = Letter base upper 0"
| "strip_diacritic c = c"

fun whitespace_to_hyphen :: "slug_char \<Rightarrow> slug_char" where
  "whitespace_to_hyphen Whitespace = Hyphen"
| "whitespace_to_hyphen c = c"

fun allowed :: "slug_char \<Rightarrow> bool" where
  "allowed (Letter base upper mark) = True"
| "allowed (Digit n) = True"
| "allowed Hyphen = True"
| "allowed Whitespace = False"
| "allowed (Symbol n) = False"

definition slugify :: "slug_char list \<Rightarrow> slug_char list" where
  "slugify s =
     filter allowed (map whitespace_to_hyphen (map strip_diacritic (map lowercase s)))"

section \<open>Basic facts about states and traces\<close>

lemma trace_emit [simp]: "trace (emit e st) = trace st @ [e]"
  by (simp add: emit_def)

lemma vars_emit [simp]:
  "detectedSourceLangVar (emit e st) = detectedSourceLangVar st"
  "totalBilledCharacters (emit e st) = totalBilledCharacters st"
  by (simp_all add: emit_def)

lemma trace_log [simp]: "trace (log m st) = trace st @ [Log m]"
  by (simp add: log_def)

lemma vars_log [simp]:
  "detectedSourceLangVar (log m st) = detectedSourceLangVar st"
  "totalBilledCharacters (log m st) = totalBilledCharacters st"
  by (simp_all add: log_def)

lemma trace_log_if [simp]: "trace (log_if b m st) = trace st @ (if b then [Log m] else [])"
  by (simp add: log_if_def)

lemma vars_log_if [simp]:
  "detectedSourceLangVar (log_if b m st) = detectedSourceLangVar st"
  "totalBilledCharacters (log_if b m st) = totalBilledCharacters st"
  by (simp_all add: log_if_def)

lemma results_append [simp]: "results (xs @ ys) = results xs @ results ys"
  by (simp add: results_def map_filter_def)

lemma results_Nil [simp]: "results [] = []"
  by (simp add: results_def map_filter_def)

lemma results_Cons [simp]:
  "results (e # es) = (case result_of e of None \<Rightarrow> results es | Some r \<Rightarrow> r # results es)"
  by (simp add: results_def map_filter_def split: option.splits)

subsection \<open>Invariants of a run\<close>

text \<open>
  A property \<open>I\<close> of the state that every effect other than a translation keeps, and that
  \<open>translate\<close> keeps when it returns, holds throughout the run; \<open>J\<close> is what is known when
  the run halts.
\<close>

lemma log_keeps:
  assumes E: "\<And>e st. \<not> is_translate e \<Longrightarrow> (is_put e \<longrightarrow> \<not> dry) \<Longrightarrow> I st \<Longrightarrow> I (emit e st)"
    and "I st"
  shows "I (log m st)" and "I (log_if b m st)"
  using assms by (simp_all add: log_def log_if_def)

lemma process_locale_keeps:
  assumes E: "\<And>e st. \<not> is_translate e \<Longrightarrow> (is_put e \<longrightarrow> \<not> dry) \<Longrightarrow> I st \<Longrightarrow> I (emit e st)"
    and T: "\<And>t l st. I st \<Longrightarrow>
              (case translate w cfg t l st of (Inl h, st') \<Rightarrow> J h st' | (Inr x, st') \<Rightarrow> I st')"
    and H: "\<And>h st. h \<noteq> ProcessExit 0 \<Longrightarrow> I st \<Longrightarrow> J h st"
    and I: "I st"
  shows "case process_locale w cfg l s st of (Inl h, st') \<Rightarrow> J h st' | (Inr x, st') \<Rightarrow> I st'"
proof (cases "localized_paths s")
  case None
  then show ?thesis
    using H log_keeps(1) [where I = I and dry = dry, OF E I] by (simp add: process_locale_def)
next
  case (Some lps)
  show ?thesis
  proof (cases "skip_locale cfg lps l")
    case True
    with Some show ?thesis
      using log_keeps(2) [where I = I and dry = dry, OF E I] by (simp add: process_locale_def)
  next
    case False
    show ?thesis
    proof (cases "translate w cfg (slug s) l st")
      case (Pair r1 st1)
      show ?thesis
      proof (cases r1)
        case (Inl h)
        with Pair Some False T [OF I, of "slug s" l] show ?thesis
          by (simp add: process_locale_def)
      next
        case (Inr t1)
        with Pair T [OF I, of "slug s" l] have I1: "I st1" by simp
        from T [OF I1, of "name s" l] Pair Inr Some False show ?thesis
          by (auto simp: process_locale_def Let_def split: prod.splits sum.splits)
      qed
    qed
  qed
qed

lemma process_locales_keeps:
  assumes E: "\<And>e st. \<not> is_translate e \<Longrightarrow> (is_put e \<longrightarrow> \<not> dry) \<Longrightarrow> I st \<Longrightarrow> I (emit e st)"
    and T: "\<And>t l st. I st \<Longrightarrow>
              (case translate w cfg t l st of (Inl h, st') \<Rightarrow> J h st' | (Inr x, st') \<Rightarrow> I st')"
    and H: "\<And>h st. h \<noteq> ProcessExit 0 \<Longrightarrow> I st \<Longrightarrow> J h st"
    and I: "I st"
  shows "case process_locales w cfg ls s st of (Inl h, st') \<Rightarrow> J h st' | (Inr x, st') \<Rightarrow> I st'"
  using I
proof (induction ls arbitrary: s st)
  case Nil
  then show ?case by simp
next
  case (Cons l ls)
  obtain r st1 where r: "process_locale w cfg l s st = (r, st1)"
    by (cases "process_locale w cfg l s st")
  from process_locale_keeps [where I = I and J = J and dry = dry, OF E T H Cons.prems] r
  have k: "case r of Inl h \<Rightarrow> J h st1 | Inr x \<Rightarrow> I st1"
    by (metis (mono_tags, lifting) case_prod_conv)
  show ?case
  proof (cases r)
    case (Inl h)
    with k r show ?thesis by simp
  next
    case (Inr s1)
    with k have "I st1" by simp
    from Cons.IH [OF this] r Inr show ?thesis by simp
  qed
qed

lemma process_story_keeps:
  assumes E: "\<And>e st. \<not> is_translate e \<Longrightarrow> (is_put e \<longrightarrow> \<not> dry_run cfg) \<Longrightarrow> I st \<Longrightarrow> I (emit e st)"
    and T: "\<And>t l st. I st \<Longrightarrow>
              (case translate w cfg t l st of (Inl h, st') \<Rightarrow> J h st' | (Inr x, st') \<Rightarrow> I st')"
    and H: "\<And>h st. h \<noteq> ProcessExit 0 \<Longrightarrow> I st \<Longrightarrow> J h st"
    and I: "I st"
  shows "case process_story w cfg s st of (Inl h, st') \<Rightarrow> J h st' | (Inr x, st') \<Rightarrow> I st'"
proof -
  have L: "\<And>m st. I st \<Longrightarrow> I (log m st)" "\<And>b m st. I st \<Longrightarrow> I (log_if b m st)"
    using log_keeps [where I = I and dry = "dry_run cfg", OF E] by blast+
  have I0: "I (story_header cfg s st)"
    using I L by (simp add: story_header_def)
  obtain r st1 where r: "process_locales w cfg (locales cfg) s (story_header cfg s st) = (r, st1)"
    by (cases "process_locales w cfg (locales cfg) s (story_header cfg s st)")
  from process_locales_keeps [where I = I and J = J and dry = "dry_run cfg", OF E T H I0] r
  have k: "case r of Inl h \<Rightarrow> J h st1 | Inr x \<Rightarrow> I st1"
    by (metis (mono_tags, lifting) case_prod_conv)
  show ?thesis
  proof (cases r)
    case (Inl h)
    with k r show ?thesis by (simp add: process_story_def)
  next
    case (Inr s')
    with k have I1: "I st1" by simp
    show ?thesis
    proof (cases "translated_slugs_attributes s'")
      case None
      with r Inr L(2) [OF I1] show ?thesis by (simp add: process_story_def)
    next
      case (Some attrs)
      have I2: "I (log_if (verbose cfg) (UpdatedTranslatedSlugs attrs) st1)"
        using L(2) [OF I1] .
      show ?thesis
      proof (cases "dry_run cfg")
        case True
        with r Inr Some L(2) [OF I2] show ?thesis by (simp add: process_story_def)
      next
        case False
        let ?p = "\<lparr>payload_story = s', payload_publish = publish cfg\<rparr>"
        have I3: "I (emit (Put (spaceId cfg) (story_id s') ?p)
                       (log_if (verbose cfg) (UpdatedTranslatedSlugs attrs) st1))"
          using E [OF _ _ I2, of "Put (spaceId cfg) (story_id s') ?p"] False by simp
        with r Inr Some False L(2) [OF I3] H [OF _ I3] show ?thesis
          by (simp add: process_story_def Let_def)
      qed
    qed
  qed
qed

lemma process_stories_keeps:
  assumes E: "\<And>e st. \<not> is_translate e \<Longrightarrow> (is_put e \<longrightarrow> \<not> dry_run cfg) \<Longrightarrow> I st \<Longrightarrow> I (emit e st)"
    and T: "\<And>t l st. I st \<Longrightarrow>
              (case translate w cfg t l st of (Inl h, st') \<Rightarrow> J h st' | (Inr x, st') \<Rightarrow> I st')"
    and H: "\<And>h st. h \<noteq> ProcessExit 0 \<Longrightarrow> I st \<Longrightarrow> J h st"
    and I: "I st"
  shows "case process_stories w cfg ss st of (Inl h, st') \<Rightarrow> J h st' | (Inr x, st') \<Rightarrow> I st'"
  using I
proof (induction ss arbitrary: st)
  case Nil
  then show ?case by simp
next
  case (Cons s ss)
  obtain r st1 where r: "process_story w cfg s st = (r, st1)"
    by (cases "process_story w cfg s st")
  from process_story_keeps [where I = I and J = J, OF E T H Cons.prems] r
  have k: "case r of Inl h \<Rightarrow> J h st1 | Inr x \<Rightarrow> I st1"
    by (metis (mono_tags, lifting) case_prod_conv)
  show ?case
  proof (cases r)
    case (Inl h)
    with k r show ?thesis by simp
  next
    case (Inr u)
    with k have "I st1" by simp
    from Cons.IH [OF this] r Inr show ?thesis by simp
  qed
qed

lemma fetch_stories_keeps:
  assumes E: "\<And>e st. \<not> is_translate e \<Longrightarrow> (is_put e \<longrightarrow> \<not> dry) \<Longrightarrow> I st \<Longrightarrow> I (emit e st)"
    and I: "I st"
  shows "I (snd (fetch_stories w cfg ss acc st))"
  using I
proof (induction ss arbitrary: acc st)
  case Nil
  then show ?case by simp
next
  case (Cons s ss)
  have "I (emit (GetStory (spaceId cfg) (story_id s)) st)"
    using E [OF _ _ Cons.prems, of "GetStory (spaceId cfg) (story_id s)"] by simp
  with Cons show ?case
    by (auto simp: Let_def split: option.splits)
qed

lemma resolve_config_keeps:
  assumes E: "\<And>e st. \<not> is_translate e \<Longrightarrow> (is_put e \<longrightarrow> \<not> dry) \<Longrightarrow> I st \<Longrightarrow> I (emit e st)"
    and I: "I st"
  shows "I (snd (resolve_config args env st))"
  using log_keeps(1) [where I = I and dry = dry, OF E I] I
  by (simp add: resolve_config_def split: option.splits sum.splits)

lemma resolve_locales_keeps:
  assumes E: "\<And>e st. \<not> is_translate e \<Longrightarrow> (is_put e \<longrightarrow> \<not> dry) \<Longrightarrow> I st \<Longrightarrow> I (emit e st)"
    and I: "I st"
  shows "I (snd (resolve_locales w cfg st))"
proof -
  have L: "\<And>m st. I st \<Longrightarrow> I (log m st)"
    using log_keeps(1) [where I = I and dry = dry, OF E] by blast
  have "I (emit (GetSpace (spaceId cfg)) (log FetchingSpaceLocales (log NoLocalesStated st)))"
    using E [OF _ _ L [OF L [OF I]], of "GetSpace (spaceId cfg)"] by simp
  with I show ?thesis
    by (simp add: resolve_locales_def Let_def split: option.splits)
qed

lemma general_information_keeps:
  assumes E: "\<And>e st. \<not> is_translate e \<Longrightarrow> (is_put e \<longrightarrow> \<not> dry) \<Longrightarrow> I st \<Longrightarrow> I (emit e st)"
    and I: "I st"
  shows "I (general_information cfg st)"
proof -
  have L: "\<And>m st. I st \<Longrightarrow> I (log m st)" "\<And>b m st. I st \<Longrightarrow> I (log_if b m st)"
    using log_keeps [where I = I and dry = dry, OF E] by blast+
  show ?thesis
    unfolding general_information_def Let_def by (intro L I)
qed


lemma resolve_config_Inr:
  assumes "resolve_config args env st = (Inr cfg, st')"
  shows "st' = st"
    and "oauthToken cfg = js_or (arg args ''token'') (env_value env ''STORYBLOK_OAUTH_TOKEN'')"
    and "spaceId cfg = js_or (arg args ''space'') (env_value env ''STORYBLOK_SPACE_ID'')"
    and "resolve_region args env = Some (region cfg)"
    and "deeplApiKey cfg = js_or (arg args ''deepl-api-key'') (env_value env ''DEEPL_API_KEY'')"
    and "sourceLang cfg = js_or (arg args ''source-lang'') JNull"
    and "dry_run cfg = truthy (arg args ''dry-run'')"
    and "overwrite cfg = truthy (arg args ''overwrite'')"
    and "publish cfg = truthy (arg args ''publish'')"
    and "verbose cfg = has_arg args ''verbose''"
  using assms
  by (auto simp: resolve_config_def split: if_splits option.splits sum.splits)

lemma main_keeps:
  assumes E: "\<And>e st. \<not> is_translate e \<Longrightarrow> (is_put e \<longrightarrow> \<not> truthy (arg args ''dry-run'')) \<Longrightarrow>
                I st \<Longrightarrow> I (emit e st)"
    and T: "\<And>cfg t l st. sourceLang cfg = js_or (arg args ''source-lang'') JNull \<Longrightarrow> I st \<Longrightarrow>
              (case translate w cfg t l st of (Inl h, st') \<Rightarrow> J h st' | (Inr x, st') \<Rightarrow> I st')"
    and H: "\<And>h st. I st \<Longrightarrow> J h st"
    and I: "I init_state"
  shows "J (fst (main w args env)) (snd (main w args env))"
proof (cases "has_arg args ''help''")
  case True
  have "I (log Usage init_state)"
    using log_keeps(1) [where I = I and dry = "truthy (arg args ''dry-run'')", OF E I] .
  with True H show ?thesis by (simp add: main_def)
next
  case False
  have L: "\<And>m st. I st \<Longrightarrow> I (log m st)"
    using log_keeps(1) [where I = I and dry = "truthy (arg args ''dry-run'')", OF E] by blast
  obtain rc st1 where rc: "resolve_config args env init_state = (rc, st1)"
    by (cases "resolve_config args env init_state")
  have I1: "I st1"
    using resolve_config_keeps [where I = I and dry = "truthy (arg args ''dry-run'')" and args = args and env = env, OF E I] rc by simp
  show ?thesis
  proof (cases rc)
    case (Inl h)
    with False rc H [OF I1] show ?thesis by (simp add: main_def)
  next
    case (Inr cfg0)
    note c0 = resolve_config_Inr [OF rc [unfolded Inr]]
    obtain rl st2 where rl: "resolve_locales w cfg0 st1 = (rl, st2)"
      by (cases "resolve_locales w cfg0 st1")
    have I2: "I st2"
      using resolve_locales_keeps [where I = I and dry = "truthy (arg args ''dry-run'')" and w = w and cfg = cfg0, OF E I1] rl by simp
    show ?thesis
    proof (cases rl)
      case (Inl h)
      with False rc Inr rl H [OF I2] show ?thesis by (simp add: main_def)
    next
      case ls: (Inr ls)
      define cfg where "cfg = cfg0\<lparr>locales := ls\<rparr>"
      have dry: "dry_run cfg = truthy (arg args ''dry-run'')"
        and src: "sourceLang cfg = js_or (arg args ''source-lang'') JNull"
        using c0 by (simp_all add: cfg_def)
      define st4 where
        "st4 = emit (GetAll (spaceId cfg)) (log FetchingStories (log Blank (general_information cfg st2)))"
      have I4: "I st4"
        unfolding st4_def
        using E [OF _ _ L [OF L [OF general_information_keeps [where I = I and dry = "truthy (arg args ''dry-run'')", OF E I2]]],
                 of "GetAll (spaceId cfg)"]
        by simp
      show ?thesis
      proof (cases "getAll w (spaceId cfg)")
        case None
        with False rc Inr rl ls H [OF I4] show ?thesis
          by (simp add: main_def Let_def cfg_def st4_def)
      next
        case (Some storyList)
        obtain rf st5 where rf: "fetch_stories w cfg storyList [] st4 = (rf, st5)"
          by (cases "fetch_stories w cfg storyList [] st4")
        have I5: "I st5"
          using fetch_stories_keeps [where I = I and dry = "truthy (arg args ''dry-run'')" and w = w and cfg = cfg and ss = storyList and acc = "[]", OF E I4] rf by simp
        show ?thesis
        proof (cases rf)
          case (Inl h)
          with False rc Inr rl ls Some rf H [OF I5] show ?thesis
            by (simp add: main_def Let_def cfg_def st4_def)
        next
          case stories: (Inr stories)
          obtain rp st6 where rp: "process_stories w cfg stories (log ProcessingStories (log Blank st5)) = (rp, st6)"
            by (cases "process_stories w cfg stories (log ProcessingStories (log Blank st5))")
          have E': "\<And>e st. \<not> is_translate e \<Longrightarrow> (is_put e \<longrightarrow> \<not> dry_run cfg) \<Longrightarrow> I st \<Longrightarrow> I (emit e st)"
            using E dry by simp
          from process_stories_keeps [where I = I and J = J, OF E' T [OF src] H L [OF L [OF I5]]] rp
          have k: "case rp of Inl h \<Rightarrow> J h st6 | Inr x \<Rightarrow> I st6"
            by (metis (mono_tags, lifting) case_prod_conv)
          show ?thesis
          proof (cases rp)
            case (Inl h)
            with False rc Inr rl ls Some rf stories rp k show ?thesis
              by (simp add: main_def Let_def cfg_def st4_def)
          next
            case u: (Inr u)
            with k have "I st6" by simp
            from H [OF L [OF L [OF L [OF this]]]]
            show ?thesis
              using False rc Inr rl ls Some rf stories rp u
              by (simp add: main_def Let_def cfg_def st4_def)
          qed
        qed
      qed
    qed
  qed
qed

subsection \<open>The billed total\<close>

lemma translate_billed:
  assumes "totalBilledCharacters st = billed_total (trace st)"
  shows "totalBilledCharacters (snd (translate w cfg t l st)) =
           billed_total (trace (snd (translate w cfg t l st)))"
  using assms
  by (simp add: translate_def billed_total_def Let_def split: option.splits)


lemma result_of_other [simp]: "\<not> is_translate e \<Longrightarrow> result_of e = None"
  by (cases e) simp_all

lemma billed_total_snoc [simp]:
  "billed_total (tr @ [e]) =
     billed_total tr + (case result_of e of None \<Rightarrow> 0 | Some r \<Rightarrow> billedCharacters r)"
  by (simp add: billed_total_def split: option.splits)

lemma main_billed:
  "totalBilledCharacters (snd (main w args env)) = billed_total (trace (snd (main w args env)))"
proof (rule main_keeps [where I = "\<lambda>st. totalBilledCharacters st = billed_total (trace st)"
                          and J = "\<lambda>h st. totalBilledCharacters st = billed_total (trace st)"])
  show "totalBilledCharacters init_state = billed_total (trace init_state)"
    by (simp add: init_state_def billed_total_def)
next
  fix cfg t l and st :: run_state
  assume "totalBilledCharacters st = billed_total (trace st)"
  from translate_billed [OF this, of w cfg t l]
  show "case translate w cfg t l st of
          (Inl h, st') \<Rightarrow> totalBilledCharacters st' = billed_total (trace st')
        | (Inr x, st') \<Rightarrow> totalBilledCharacters st' = billed_total (trace st')"
    by (cases "translate w cfg t l st") (auto split: sum.splits)
qed simp_all

subsection \<open>How a run can halt\<close>

lemma translate_halt: "translate w cfg t l st = (Inl h, st') \<Longrightarrow> h \<noteq> ProcessExit 0"
  by (auto simp: translate_def Let_def split: option.splits if_splits)

lemma process_stories_halt:
  assumes "process_stories w cfg ss st = (Inl h, st')"
  shows "h \<noteq> ProcessExit 0"
proof -
  have T: "\<And>t l st. True \<Longrightarrow>
             (case translate w cfg t l st of (Inl h, st') \<Rightarrow> h \<noteq> ProcessExit 0 | (Inr x, st') \<Rightarrow> True)"
    by (auto split: prod.splits sum.splits dest: translate_halt)
  from process_stories_keeps [where I = "\<lambda>st. True" and J = "\<lambda>h st. h \<noteq> ProcessExit 0"
                                and w = w and cfg = cfg and ss = ss and st = st, OF _ T]
  show ?thesis using assms by simp
qed

lemma resolve_config_halt: "resolve_config args env st = (Inl h, st') \<Longrightarrow> h \<noteq> ProcessExit 0"
  by (auto simp: resolve_config_def split_arg_def
           split: if_splits option.splits sum.splits js_value.splits)

lemma resolve_locales_halt: "resolve_locales w cfg st = (Inl h, st') \<Longrightarrow> h = UncaughtError"
  by (auto simp: resolve_locales_def Let_def split: if_splits option.splits)

lemma fetch_stories_halt: "fetch_stories w cfg ss acc st = (Inl h, st') \<Longrightarrow> h = UncaughtError"
  by (induction ss arbitrary: acc st) (auto simp: Let_def split: if_splits option.splits)

lemma main_success:
  assumes "fst (main w args env) = ProcessExit 0" and "\<not> has_arg args ''help''"
  shows "\<exists>st6. snd (main w args env) =
           log (TotalBilled (totalBilledCharacters st6)) (log Finished (log Blank st6))"
  using assms
  by (auto simp: main_def Let_def split: prod.splits sum.splits option.splits
           dest: resolve_config_halt resolve_locales_halt fetch_stories_halt process_stories_halt)

lemma process_locale_skip:
  assumes "localized_paths s = Some lps" and "skip_locale cfg lps l"
  shows "process_locale w cfg l s st = (Inr s, log_if (verbose cfg) (SkippedTranslation l) st)"
  using assms by (simp add: process_locale_def)

subsection \<open>The fetch loop and the defaults\<close>




subsection \<open>Consistency of the detected source language\<close>

lemma ends_with_mismatch_snoc [simp]:
  "ends_with_mismatch (tr @ [TranslateText t s l (Some r), Log (ErrDetectedSourceLang new previous)]) \<longleftrightarrow>
     new = detectedSourceLang r \<and> new \<noteq> previous"
  by (simp add: ends_with_mismatch_def)

lemma translate_consistent:
  assumes "sourceLang cfg = JNull" and "consistent st"
  shows "case translate w cfg t l st of
           (Inl h, st') \<Rightarrow> consistent st' \<or> (h = ProcessExit 1 \<and> ends_with_mismatch (trace st'))
         | (Inr x, st') \<Rightarrow> consistent st'"
  using assms
  by (auto simp: translate_def consistent_def Let_def split: option.splits)

lemma main_consistent:
  assumes "\<not> truthy (arg args ''source-lang'')"
  shows "consistent (snd (main w args env)) \<or>
         (fst (main w args env) = ProcessExit 1 \<and> ends_with_mismatch (trace (snd (main w args env))))"
proof (rule main_keeps [where I = consistent
          and J = "\<lambda>h st. consistent st \<or> (h = ProcessExit 1 \<and> ends_with_mismatch (trace st))"])
  show "consistent init_state"
    by (simp add: consistent_def init_state_def)
next
  fix cfg :: config and t l and st :: run_state
  assume "sourceLang cfg = js_or (arg args ''source-lang'') JNull" and "consistent st"
  with assms show "case translate w cfg t l st of
           (Inl h, st') \<Rightarrow> consistent st' \<or> (h = ProcessExit 1 \<and> ends_with_mismatch (trace st'))
         | (Inr x, st') \<Rightarrow> consistent st'"
    using translate_consistent [of cfg st w t l] by (simp add: js_or_def)
next
  fix e and st :: run_state
  assume "\<not> is_translate e" and "consistent st"
  then show "consistent (emit e st)"
    by (simp add: consistent_def)
qed simp

subsection \<open>What one translation call does\<close>

lemma translate_Inr:
  assumes "translate w cfg t l st = (Inr x, st')"
  shows "\<exists>r. trace st' = trace st @ [TranslateText t (sourceLang cfg) l (Some r)] \<and>
             x = translated_text r"
  using assms
  by (auto simp: translate_def Let_def split: option.splits if_splits)


lemma translate_puts:
  "filter is_put (trace (snd (translate w cfg t l st))) = filter is_put (trace st)"
  by (auto simp: translate_def Let_def split: option.splits)

subsection \<open>What the loop over the locales does to a story\<close>


lemma process_locale_translated:
  assumes "localized_paths s = Some lps" and "\<not> skip_locale cfg lps l"
    and "process_locale w cfg l s st = (Inr s', st')"
  shows "\<exists>r1 r2.
           trace st' = trace st @ [TranslateText (slug s) (sourceLang cfg) l (Some r1),
                                   TranslateText (name s) (sourceLang cfg) l (Some r2)] \<and>
           s' = s\<lparr>translated_slugs_attributes :=
                    Some (attributes_of s @
                          [\<lparr>entry_lang = l, entry_slug = slugify_impl w (translated_text r1),
                            entry_name = translated_text r2\<rparr>])\<rparr>"
proof -
  obtain a st1 where a: "translate w cfg (slug s) l st = (a, st1)"
    by (cases "translate w cfg (slug s) l st")
  with assms obtain t1 where t1: "a = Inr t1"
    by (cases a) (simp_all add: process_locale_def)
  obtain b st2 where b: "translate w cfg (name s) l st1 = (b, st2)"
    by (cases "translate w cfg (name s) l st1")
  with assms a t1 obtain t2 where t2: "b = Inr t2"
    by (cases b) (simp_all add: process_locale_def)
  from translate_Inr [OF a [unfolded t1]] obtain r1 where
    r1: "trace st1 = trace st @ [TranslateText (slug s) (sourceLang cfg) l (Some r1)]"
        "t1 = translated_text r1" by blast
  from translate_Inr [OF b [unfolded t2]] obtain r2 where
    r2: "trace st2 = trace st1 @ [TranslateText (name s) (sourceLang cfg) l (Some r2)]"
        "t2 = translated_text r2" by blast
  from assms a t1 b t2 have "st' = st2" and
    "s' = s\<lparr>translated_slugs_attributes :=
              Some (attributes_of s @
                    [\<lparr>entry_lang = l, entry_slug = slugify_impl w t1, entry_name = t2\<rparr>])\<rparr>"
    by (simp_all add: process_locale_def)
  with r1 r2 show ?thesis by simp
qed


lemma process_locale_story:
  assumes "process_locale w cfg l s st = (Inr s', st')"
  shows "\<exists>es. set (map entry_lang es) \<subseteq> {l} \<and>
              s' = (if es = [] then s
                    else s\<lparr>translated_slugs_attributes := Some (attributes_of s @ es)\<rparr>)"
proof (cases "localized_paths s")
  case None
  with assms show ?thesis by (simp add: process_locale_def)
next
  case (Some lps)
  show ?thesis
  proof (cases "skip_locale cfg lps l")
    case True
    with Some assms have "s' = s" by (simp add: process_locale_def)
    then show ?thesis
      by (intro exI [where x = "[]"]) simp
  next
    case False
    from process_locale_translated [OF Some False assms]
    obtain r1 r2 :: translation_result where
      e: "s' = s\<lparr>translated_slugs_attributes :=
                    Some (attributes_of s @
                          [\<lparr>entry_lang = l, entry_slug = slugify_impl w (translated_text r1),
                            entry_name = translated_text r2\<rparr>])\<rparr>"
      by (elim exE conjE)
    show ?thesis
      by (intro exI [where x = "[\<lparr>entry_lang = l, entry_slug = slugify_impl w (translated_text r1),
                            entry_name = translated_text r2\<rparr>]"])
         (simp add: e)
  qed
qed

lemma process_locales_story:
  assumes "process_locales w cfg ls s st = (Inr s', st')"
  shows "\<exists>es. set (map entry_lang es) \<subseteq> set ls \<and>
              s' = (if es = [] then s
                    else s\<lparr>translated_slugs_attributes := Some (attributes_of s @ es)\<rparr>)"
  using assms
proof (induction ls arbitrary: s st)
  case Nil
  then have "s' = s" by simp
  then show ?case
    by (intro exI [where x = "[]"]) simp
next
  case (Cons l ls)
  obtain a st1 where a: "process_locale w cfg l s st = (a, st1)"
    by (cases "process_locale w cfg l s st")
  with Cons.prems obtain s1 where s1: "a = Inr s1"
    and rest: "process_locales w cfg ls s1 st1 = (Inr s', st')"
    by (cases a) simp_all
  from process_locale_story [OF a [unfolded s1]] obtain es1 where
    es1: "set (map entry_lang es1) \<subseteq> {l}"
         "s1 = (if es1 = [] then s
                else s\<lparr>translated_slugs_attributes := Some (attributes_of s @ es1)\<rparr>)"
    by (elim exE conjE)
  from Cons.IH [OF rest] obtain es2 where
    es2: "set (map entry_lang es2) \<subseteq> set ls"
         "s' = (if es2 = [] then s1
                else s1\<lparr>translated_slugs_attributes := Some (attributes_of s1 @ es2)\<rparr>)"
    by (elim exE conjE)
  have "set (map entry_lang (es1 @ es2)) \<subseteq> set (l # ls)"
    using es1(1) es2(1) by auto
  moreover have "s' = (if es1 @ es2 = [] then s
                       else s\<lparr>translated_slugs_attributes := Some (attributes_of s @ es1 @ es2)\<rparr>)"
    by (simp add: es2(2) es1(2) attributes_of_def)
  ultimately show ?case
    by (intro exI [where x = "es1 @ es2"] conjI)
qed


lemma story_header_puts [simp]:
  "filter is_put (trace (story_header cfg s st)) = filter is_put (trace st)"
  by (simp add: story_header_def)











lemma process_locales_added:
  assumes "process_locales w cfg ls s st = (Inr s', st')"
    and "translated_slugs_attributes s = None"
  shows "translated_slugs_attributes s' = None \<longleftrightarrow> attributes_of s' = attributes_of s"
    and "story_id s' = story_id s"
proof -
  from process_locales_story [OF assms(1)] obtain es where
    es: "s' = (if es = [] then s
               else s\<lparr>translated_slugs_attributes := Some (attributes_of s @ es)\<rparr>)"
    by (elim exE conjE)
  show "translated_slugs_attributes s' = None \<longleftrightarrow> attributes_of s' = attributes_of s"
    using assms(2) by (subst (1 2) es) (simp add: attributes_of_def)
  show "story_id s' = story_id s"
    by (subst es) simp
qed

subsection \<open>The dry-run flag only suppresses the write\<close>

lemma core_emit [simp]:
  "core (emit e st) = (if is_translate e
                       then (detectedSourceLangVar st, totalBilledCharacters st,
                             filter is_translate (trace st) @ [e])
                       else core st)"
  by (simp add: core_def)

lemma core_log [simp]: "core (log m st) = core st" "core (log_if b m st) = core st"
  by (simp_all add: log_def log_if_def)

lemma core_story_header [simp]: "core (story_header cfg s st) = core st"
  by (simp add: story_header_def)

lemma translate_core:
  assumes "core st = core st'"
  shows "fst (translate w cfg t l st) = fst (translate w cfg t l st') \<and>
         core (snd (translate w cfg t l st)) = core (snd (translate w cfg t l st'))"
  using assms
  by (auto simp: translate_def translate_calls_def core_def Let_def log_def
           split: option.splits)

lemma translate_dry [simp]: "translate w (cfg\<lparr>dry_run := b\<rparr>) = translate w cfg"
  by (intro ext) (simp add: translate_def cong: option.case_cong)

lemma skip_locale_dry [simp]: "skip_locale (cfg\<lparr>dry_run := b\<rparr>) = skip_locale cfg"
  by (intro ext) (simp add: skip_locale_def cong: option.case_cong)

lemma process_locale_dry [simp]:
  "process_locale w (cfg\<lparr>dry_run := b\<rparr>) = process_locale w cfg"
  by (intro ext) (simp add: process_locale_def Let_def cong: option.case_cong if_cong prod.case_cong sum.case_cong)

lemma process_locales_dry [simp]:
  "process_locales w (cfg\<lparr>dry_run := b\<rparr>) ls s st = process_locales w cfg ls s st"
  by (induction ls arbitrary: s st) (simp_all cong: prod.case_cong sum.case_cong)

lemma process_locale_core:
  assumes "core st = core st'"
  shows "fst (process_locale w cfg l s st) = fst (process_locale w cfg l s st') \<and>
         core (snd (process_locale w cfg l s st)) = core (snd (process_locale w cfg l s st'))"
proof (cases "localized_paths s")
  case None
  with assms show ?thesis by (simp add: process_locale_def)
next
  case (Some lps)
  show ?thesis
  proof (cases "skip_locale cfg lps l")
    case True
    with Some assms show ?thesis by (simp add: process_locale_def)
  next
    case False
    obtain a st1 where a: "translate w cfg (slug s) l st = (a, st1)"
      by (cases "translate w cfg (slug s) l st")
    obtain st1' where a': "translate w cfg (slug s) l st' = (a, st1')"
      and c1: "core st1 = core st1'"
      using translate_core [OF assms, of w cfg "slug s" l] a
      by (cases "translate w cfg (slug s) l st'") simp
    show ?thesis
    proof (cases a)
      case (Inl h)
      with Some False a a' c1 show ?thesis by (simp add: process_locale_def)
    next
      case (Inr t1)
      obtain b st2 where b: "translate w cfg (name s) l st1 = (b, st2)"
        by (cases "translate w cfg (name s) l st1")
      obtain st2' where b': "translate w cfg (name s) l st1' = (b, st2')"
        and c2: "core st2 = core st2'"
        using translate_core [OF c1, of w cfg "name s" l] b
        by (cases "translate w cfg (name s) l st1'") simp
      from Some False a a' Inr b b' c2 show ?thesis
        by (cases b) (simp_all add: process_locale_def)
    qed
  qed
qed

lemma process_locales_core:
  assumes "core st = core st'"
  shows "fst (process_locales w cfg ls s st) = fst (process_locales w cfg ls s st') \<and>
         core (snd (process_locales w cfg ls s st)) = core (snd (process_locales w cfg ls s st'))"
  using assms
proof (induction ls arbitrary: s st st')
  case Nil
  then show ?case by simp
next
  case (Cons l ls)
  obtain a st1 where a: "process_locale w cfg l s st = (a, st1)"
    by (cases "process_locale w cfg l s st")
  obtain st1' where a': "process_locale w cfg l s st' = (a, st1')"
    and c: "core st1 = core st1'"
    using process_locale_core [OF Cons.prems, of w cfg l s] a
    by (cases "process_locale w cfg l s st'") simp
  show ?case
  proof (cases a)
    case (Inl h)
    with a a' c show ?thesis by simp
  next
    case (Inr s1)
    with a a' Cons.IH [OF c, of s1] show ?thesis by simp
  qed
qed

text \<open>
  A story processed once with \<^verbatim>\<open>--dry-run\<close> and once without, where the write
  succeeds: the same result, the same translation calls, the same variables.
\<close>

lemma process_story_core:
  assumes "core st = core st'" and "\<And>sp i p. put_story w sp i p"
  shows "fst (process_story w (cfg\<lparr>dry_run := True\<rparr>) s st) =
           fst (process_story w (cfg\<lparr>dry_run := False\<rparr>) s st') \<and>
         core (snd (process_story w (cfg\<lparr>dry_run := True\<rparr>) s st)) =
           core (snd (process_story w (cfg\<lparr>dry_run := False\<rparr>) s st'))"
proof -
  have h: "core (story_header cfg s st) = core (story_header cfg s st')"
    using assms(1) by simp
  obtain a st1 where a: "process_locales w cfg (locales cfg) s (story_header cfg s st) = (a, st1)"
    by (cases "process_locales w cfg (locales cfg) s (story_header cfg s st)")
  obtain st1' where a': "process_locales w cfg (locales cfg) s (story_header cfg s st') = (a, st1')"
    and c: "core st1 = core st1'"
    using process_locales_core [OF h, of w cfg "locales cfg" s] a
    by (cases "process_locales w cfg (locales cfg) s (story_header cfg s st')") simp
  show ?thesis
  proof (cases a)
    case (Inl h)
    with a a' c show ?thesis by (simp add: process_story_def story_header_def)
  next
    case (Inr s1)
    with a a' c assms(2) show ?thesis
      by (simp add: process_story_def story_header_def Let_def split: option.splits)
  qed
qed

lemma process_stories_core:
  assumes "core st = core st'" and "\<And>sp i p. put_story w sp i p"
  shows "fst (process_stories w (cfg\<lparr>dry_run := True\<rparr>) ss st) =
           fst (process_stories w (cfg\<lparr>dry_run := False\<rparr>) ss st') \<and>
         core (snd (process_stories w (cfg\<lparr>dry_run := True\<rparr>) ss st)) =
           core (snd (process_stories w (cfg\<lparr>dry_run := False\<rparr>) ss st'))"
  using assms(1)
proof (induction ss arbitrary: st st')
  case Nil
  then show ?case by simp
next
  case (Cons s ss)
  obtain a st1 where a: "process_story w (cfg\<lparr>dry_run := True\<rparr>) s st = (a, st1)"
    by (cases "process_story w (cfg\<lparr>dry_run := True\<rparr>) s st")
  obtain st1' where a': "process_story w (cfg\<lparr>dry_run := False\<rparr>) s st' = (a, st1')"
    and c: "core st1 = core st1'"
    using process_story_core [OF Cons.prems assms(2), of cfg s] a
    by (cases "process_story w (cfg\<lparr>dry_run := False\<rparr>) s st'") simp
  show ?case
  proof (cases a)
    case (Inl h)
    with a a' c show ?thesis by simp
  next
    case (Inr u)
    with a a' Cons.IH [OF c] show ?thesis by simp
  qed
qed

lemma core_general_information [simp]: "core (general_information cfg st) = core st"
  by (simp add: general_information_def Let_def)

lemma resolve_locales_dry [simp]:
  "resolve_locales w (cfg\<lparr>dry_run := b\<rparr>) st = resolve_locales w cfg st"
  by (simp add: resolve_locales_def Let_def cong: option.case_cong)

lemma select_story_dry [simp]: "select_story (cfg\<lparr>dry_run := b\<rparr>) s = select_story cfg s"
  by (simp add: select_story_def)

lemma fetch_stories_core:
  assumes "core st = core st'"
  shows "fst (fetch_stories w (cfg\<lparr>dry_run := b\<rparr>) ss acc st) = fst (fetch_stories w cfg ss acc st') \<and>
         core (snd (fetch_stories w (cfg\<lparr>dry_run := b\<rparr>) ss acc st)) =
           core (snd (fetch_stories w cfg ss acc st'))"
  using assms
proof (induction ss arbitrary: acc st st')
  case Nil
  then show ?case by simp
next
  case (Cons s ss)
  show ?case
  proof (cases "select_story cfg s")
    case False
    with Cons show ?thesis by simp
  next
    case True
    show ?thesis
    proof (cases "get_story w (spaceId cfg) (story_id s)")
      case None
      with True Cons.prems show ?thesis by (simp add: Let_def)
    next
      case (Some d)
      have "core (emit (GetStory (spaceId cfg) (story_id s)) st) =
            core (emit (GetStory (spaceId cfg) (story_id s)) st')"
        using Cons.prems by simp
      from Cons.IH [OF this, of "acc @ [d]"] True Some show ?thesis
        by (simp add: Let_def)
    qed
  qed
qed

lemma arg_without_dry_run:
  "k \<noteq> ''dry-run'' \<Longrightarrow> arg (args(''dry-run'' := None)) k = arg args k"
  "k \<noteq> ''dry-run'' \<Longrightarrow> has_arg (args(''dry-run'' := None)) k = has_arg args k"
  "arg (args(''dry-run'' := None)) ''dry-run'' = JUndefined"
  by (simp_all add: arg_def has_arg_def)

lemma resolve_region_without_dry_run:
  "resolve_region (args(''dry-run'' := None)) env = resolve_region args env"
  by (simp add: resolve_region_def arg_without_dry_run)

lemma resolve_config_without_dry_run:
  "resolve_config args env st = (Inl h, st') \<Longrightarrow>
     resolve_config (args(''dry-run'' := None)) env st = (Inl h, st')"
  "resolve_config args env st = (Inr cfg, st') \<Longrightarrow>
     resolve_config (args(''dry-run'' := None)) env st = (Inr (cfg\<lparr>dry_run := False\<rparr>), st')"
  by (auto simp: resolve_config_def arg_without_dry_run resolve_region_without_dry_run
           split: if_splits option.splits sum.splits)

lemma main_dry_live:
  assumes d: "truthy (arg args ''dry-run'')" and p: "\<And>sp i p. put_story w sp i p"
  shows "fst (main w args env) = fst (main w (args(''dry-run'' := None)) env) \<and>
         core (snd (main w args env)) = core (snd (main w (args(''dry-run'' := None)) env))"
proof (cases "has_arg args ''help''")
  case True
  then show ?thesis by (simp add: main_def arg_without_dry_run)
next
  case False
  let ?a = "args(''dry-run'' := None)"
  have nh: "\<not> has_arg ?a ''help''"
    using False by (simp add: arg_without_dry_run)
  obtain rc st1 where rc: "resolve_config args env init_state = (rc, st1)"
    by (cases "resolve_config args env init_state")
  show ?thesis
  proof (cases rc)
    case (Inl h)
    with rc resolve_config_without_dry_run(1) [of args env init_state h st1]
    have "resolve_config ?a env init_state = (Inl h, st1)" by simp
    with False nh rc Inl show ?thesis by (simp add: main_def)
  next
    case (Inr cfg0)
    with rc resolve_config_without_dry_run(2) [of args env init_state cfg0 st1]
    have rc': "resolve_config ?a env init_state = (Inr (cfg0\<lparr>dry_run := False\<rparr>), st1)" by simp
    have dry0: "dry_run cfg0 = True"
      using resolve_config_Inr(7) [OF rc [unfolded Inr]] d by simp
    obtain rl st2 where rl: "resolve_locales w cfg0 st1 = (rl, st2)"
      by (cases "resolve_locales w cfg0 st1")
    then have rl': "resolve_locales w (cfg0\<lparr>dry_run := False\<rparr>) st1 = (rl, st2)"
      by simp
    show ?thesis
    proof (cases rl)
      case (Inl h)
      with False nh rc Inr rc' rl rl' show ?thesis by (simp add: main_def)
    next
      case ls: (Inr ls)
      define cfg where "cfg = cfg0\<lparr>locales := ls\<rparr>"
      define cfgF where "cfgF = cfg0\<lparr>dry_run := False, locales := ls\<rparr>"
      have cfgF: "cfgF = cfg\<lparr>dry_run := False\<rparr>"
        by (cases cfg0) (simp add: cfgF_def cfg_def)
      have cfgT: "cfg\<lparr>dry_run := True\<rparr> = cfg"
        using dry0 by (simp add: cfg_def)
      define st4 where
        "st4 = emit (GetAll (spaceId cfg)) (log FetchingStories (log Blank (general_information cfg st2)))"
      define st4' where
        "st4' = emit (GetAll (spaceId cfgF))
                  (log FetchingStories (log Blank (general_information cfgF st2)))"
      have sp: "spaceId cfgF = spaceId cfg"
        by (simp add: cfgF)
      have c4: "core st4' = core st4"
        by (simp add: st4_def st4'_def)
      have m: "main w args env =
                 (case getAll w (spaceId cfg) of
                    None \<Rightarrow> (UncaughtError, st4)
                  | Some storyList \<Rightarrow>
                      (case fetch_stories w cfg storyList [] st4 of
                         (Inl h, st5) \<Rightarrow> (h, st5)
                       | (Inr stories, st5) \<Rightarrow>
                           (case process_stories w cfg stories
                                   (log ProcessingStories (log Blank st5)) of
                              (Inl h, st6) \<Rightarrow> (h, st6)
                            | (Inr u, st6) \<Rightarrow>
                                (ProcessExit 0,
                                 log (TotalBilled (totalBilledCharacters st6))
                                   (log Finished (log Blank st6))))))"
        using False rc Inr rl ls unfolding cfg_def st4_def
        by (simp add: main_def Let_def cong: option.case_cong prod.case_cong sum.case_cong)
      have "main w ?a env =
                 (case getAll w (spaceId cfgF) of
                    None \<Rightarrow> (UncaughtError, st4')
                  | Some storyList \<Rightarrow>
                      (case fetch_stories w cfgF storyList [] st4' of
                         (Inl h, st5) \<Rightarrow> (h, st5)
                       | (Inr stories, st5) \<Rightarrow>
                           (case process_stories w cfgF stories
                                   (log ProcessingStories (log Blank st5)) of
                              (Inl h, st6) \<Rightarrow> (h, st6)
                            | (Inr u, st6) \<Rightarrow>
                                (ProcessExit 0,
                                 log (TotalBilled (totalBilledCharacters st6))
                                   (log Finished (log Blank st6))))))"
        using nh rc' rl' ls unfolding cfgF_def st4'_def
        by (simp add: main_def Let_def cong: option.case_cong prod.case_cong sum.case_cong)
      then have m': "main w ?a env =
                 (case getAll w (spaceId cfg) of
                    None \<Rightarrow> (UncaughtError, st4')
                  | Some storyList \<Rightarrow>
                      (case fetch_stories w (cfg\<lparr>dry_run := False\<rparr>) storyList [] st4' of
                         (Inl h, st5) \<Rightarrow> (h, st5)
                       | (Inr stories, st5) \<Rightarrow>
                           (case process_stories w (cfg\<lparr>dry_run := False\<rparr>) stories
                                   (log ProcessingStories (log Blank st5)) of
                              (Inl h, st6) \<Rightarrow> (h, st6)
                            | (Inr u, st6) \<Rightarrow>
                                (ProcessExit 0,
                                 log (TotalBilled (totalBilledCharacters st6))
                                   (log Finished (log Blank st6))))))"
        unfolding sp unfolding cfgF .
      show ?thesis
      proof (cases "getAll w (spaceId cfg)")
        case None
        with m m' c4 show ?thesis by simp
      next
        case (Some storyList)
        obtain rf st5 where rf: "fetch_stories w cfg storyList [] st4 = (rf, st5)"
          by (cases "fetch_stories w cfg storyList [] st4")
        obtain st5' where rf': "fetch_stories w (cfg\<lparr>dry_run := False\<rparr>) storyList [] st4' = (rf, st5')"
          and c5: "core st5' = core st5"
          using fetch_stories_core [OF c4, where w = w and cfg = cfg and b = False and ss = storyList and acc = "[]"] rf
          by (cases "fetch_stories w (cfg\<lparr>dry_run := False\<rparr>) storyList [] st4'") simp
        show ?thesis
        proof (cases rf)
          case (Inl h)
          with m m' Some rf rf' c5 show ?thesis by simp
        next
          case stories: (Inr stories)
          let ?s = "log ProcessingStories (log Blank st5)"
          let ?s' = "log ProcessingStories (log Blank st5')"
          have c: "core ?s = core ?s'" using c5 by simp
          obtain rp st6 where rp: "process_stories w cfg stories ?s = (rp, st6)"
            by (cases "process_stories w cfg stories ?s")
          obtain st6' where rp': "process_stories w (cfg\<lparr>dry_run := False\<rparr>) stories ?s' = (rp, st6')"
            and c6: "core st6 = core st6'"
            using process_stories_core [OF c p, where cfg = cfg and ss = stories] rp cfgT
            by (cases "process_stories w (cfg\<lparr>dry_run := False\<rparr>) stories ?s'") simp
          from m m' Some rf rf' stories rp rp' c6 show ?thesis
            by (cases rp) simp_all
        qed
      qed
    qed
  qed
qed

lemma main_dry_puts:
  assumes "truthy (arg args ''dry-run'')"
  shows "filter is_put (trace (snd (main w args env))) = []"
proof (rule main_keeps [where I = "\<lambda>st. filter is_put (trace st) = []"
                         and J = "\<lambda>h st. filter is_put (trace st) = []"])
  show "filter is_put (trace init_state) = []"
    by (simp add: init_state_def)
next
  fix cfg :: config and t l and st :: run_state
  assume "filter is_put (trace st) = []"
  with translate_puts [of w cfg t l st]
  show "case translate w cfg t l st of
          (Inl h, st') \<Rightarrow> filter is_put (trace st') = []
        | (Inr x, st') \<Rightarrow> filter is_put (trace st') = []"
    by (cases "translate w cfg t l st") (auto split: sum.splits)
next
  fix e and st :: run_state
  assume "is_put e \<longrightarrow> \<not> truthy (arg args ''dry-run'')" and "filter is_put (trace st) = []"
  with assms show "filter is_put (trace (emit e st)) = []"
    by simp
qed simp

section \<open>The script on the small space\<close>

lemmas run_defs =
  main_def resolve_config_def resolve_region_def regions_def split_arg_def js_or_def
  has_arg_def arg_def env_value_def resolve_locales_def general_information_def
  select_story_def process_story_def story_header_def process_locale_def skip_locale_def
  translate_def translate_calls_def attributes_of_def init_state_def
  emit_def log_def log_if_def Let_def

lemmas example_defs =
  example_world_def mixed_world_def plain_world_def example_args_def example_config_def
  story_home_def story_about_us_def story_imprint_def folder_legal_def hyphenate_def
  no_env_def help_args_def keyless_args_def empty_token_args_def token_env_def french_args_def
  dry_args_def dry_config_def


lemma example_run:
  "main example_world example_args no_env =
     (ProcessExit 0,
      \<lparr>detectedSourceLangVar = Some ''EN'', totalBilledCharacters = 8,
       trace =
         [Log Blank, Log (PerformingTranslation (JNum 12345)), Log (Mode False False),
          Log (SourceLocale JNull), Log (TargetLocales [''de'']), Log (ContentTypes [''page'']),
          Log Blank, Log FetchingStories, GetAll (JNum 12345),
          GetStory (JNum 12345) 1, GetStory (JNum 12345) 2,
          Log Blank, Log ProcessingStories,
          TranslateText ''home'' JNull ''de''
            (Some \<lparr>translated_text = ''de home'', billedCharacters = 4,
                    detectedSourceLang = ''EN''\<rparr>),
          TranslateText ''Home'' JNull ''de''
            (Some \<lparr>translated_text = ''de Home'', billedCharacters = 4,
                    detectedSourceLang = ''EN''\<rparr>),
          Put (JNum 12345) 1
            \<lparr>payload_story =
               story_home\<lparr>translated_slugs_attributes :=
                 Some [\<lparr>entry_lang = ''de'', entry_slug = ''de-home'',
                        entry_name = ''de Home''\<rparr>]\<rparr>,
             payload_publish = False\<rparr>,
          Log Blank, Log Finished, Log (TotalBilled 8)]\<rparr>)"
  by (simp add: run_defs example_defs)

lemma mixed_run:
  "main mixed_world french_args no_env =
     (ProcessExit 1,
      \<lparr>detectedSourceLangVar = Some ''EN'', totalBilledCharacters = 16,
       trace =
         [Log Blank, Log (PerformingTranslation (JNum 12345)), Log (Mode False False),
          Log (SourceLocale JNull), Log (TargetLocales [''fr'']), Log (ContentTypes [''page'']),
          Log Blank, Log FetchingStories, GetAll (JNum 12345),
          GetStory (JNum 12345) 1, GetStory (JNum 12345) 2,
          Log Blank, Log ProcessingStories,
          TranslateText ''home'' JNull ''fr''
            (Some \<lparr>translated_text = ''fr home'', billedCharacters = 4,
                    detectedSourceLang = ''EN''\<rparr>),
          TranslateText ''Home'' JNull ''fr''
            (Some \<lparr>translated_text = ''fr Home'', billedCharacters = 4,
                    detectedSourceLang = ''EN''\<rparr>),
          Put (JNum 12345) 1
            \<lparr>payload_story =
               story_home\<lparr>translated_slugs_attributes :=
                 Some [\<lparr>entry_lang = ''fr'', entry_slug = ''fr-home'',
                        entry_name = ''fr Home''\<rparr>]\<rparr>,
             payload_publish = False\<rparr>,
          TranslateText ''about-us'' JNull ''fr''
            (Some \<lparr>translated_text = ''fr about-us'', billedCharacters = 8,
                    detectedSourceLang = ''FR''\<rparr>),
          Log (ErrDetectedSourceLang ''FR'' ''EN'')]\<rparr>)"
  by (simp add: run_defs example_defs)

lemma dry_run_example:
  "main example_world dry_args no_env =
     (ProcessExit 0,
      \<lparr>detectedSourceLangVar = Some ''EN'', totalBilledCharacters = 8,
       trace =
         [Log Blank, Log (PerformingTranslation (JNum 12345)), Log (Mode True False),
          Log (SourceLocale JNull), Log (TargetLocales [''de'']), Log (ContentTypes [''page'']),
          Log Blank, Log FetchingStories, GetAll (JNum 12345),
          GetStory (JNum 12345) 1, GetStory (JNum 12345) 2,
          Log Blank, Log ProcessingStories,
          TranslateText ''home'' JNull ''de''
            (Some \<lparr>translated_text = ''de home'', billedCharacters = 4,
                    detectedSourceLang = ''EN''\<rparr>),
          TranslateText ''Home'' JNull ''de''
            (Some \<lparr>translated_text = ''de Home'', billedCharacters = 4,
                    detectedSourceLang = ''EN''\<rparr>),
          Log Blank, Log Finished, Log (TotalBilled 8)]\<rparr>)"
  by (simp add: run_defs example_defs)

lemma plain_dry_run:
  "main plain_world dry_args no_env =
     (ProcessExit 1,
      \<lparr>detectedSourceLangVar = None, totalBilledCharacters = 0,
       trace =
         [Log Blank, Log (PerformingTranslation (JNum 12345)), Log (Mode True False),
          Log (SourceLocale JNull), Log (TargetLocales [''de'']), Log (ContentTypes [''page'']),
          Log Blank, Log FetchingStories, GetAll (JNum 12345), GetStory (JNum 12345) 3,
          Log Blank, Log ProcessingStories, Log (ErrLocalizedPaths ''legal/imprint'')]\<rparr>)"
  by (simp add: run_defs example_defs)

section \<open>C1: the source-language guard\<close>

text \<open>
  \<^bold>\<open>C1, as stated, fails.\<close> The claim has the run abort before any story write. Each
  story is written as soon as its own locales are translated (the PUT of line 261 is
  inside the loop over the stories), so a mismatch detected while a later story is being
  translated comes after the writes of the stories before it. Here "home" is written,
  then the first call for "about-us" reports French after two English reports, and the
  run exits with code 1.
\<close>

theorem mismatch_before_any_write_counterexample:
  "sourceLang example_config = JNull \<and>
   resolve_config french_args no_env init_state =
     (Inr (example_config\<lparr>locales := [''fr'']\<rparr>), init_state) \<and>
   map detectedSourceLang (results (trace (snd (main mixed_world french_args no_env)))) =
     [''EN'', ''EN'', ''FR''] \<and>
   fst (main mixed_world french_args no_env) = ProcessExit 1 \<and>
   filter is_put (trace (snd (main mixed_world french_args no_env))) =
     [Put (JNum 12345) 1
        \<lparr>payload_story =
           story_home\<lparr>translated_slugs_attributes :=
             Some [\<lparr>entry_lang = ''fr'', entry_slug = ''fr-home'', entry_name = ''fr Home''\<rparr>]\<rparr>,
         payload_publish = False\<rparr>]"
  by (simp add: mixed_run) (simp add: run_defs example_defs)

text \<open>
  \<^bold>\<open>C1, amended.\<close> When no explicit source locale is configured and two translation calls
  of the same run report different auto-detected source languages, the run aborts with
  exit code 1 at the mismatching call: that call and the error line it prints are the last
  effects of the run, so no story write (PUT) is issued after it. Writes issued for
  stories completed before that call are not affected.
\<close>

theorem mismatch_aborts_at_once:
  assumes "\<not> truthy (arg args ''source-lang'')"
    and "r1 \<in> set (results (trace (snd (main w args env))))"
    and "r2 \<in> set (results (trace (snd (main w args env))))"
    and "detectedSourceLang r1 \<noteq> []" and "detectedSourceLang r2 \<noteq> []"
    and "detectedSourceLang r1 \<noteq> detectedSourceLang r2"
  shows "fst (main w args env) = ProcessExit 1 \<and>
         ends_with_mismatch (trace (snd (main w args env)))"
proof -
  have "\<not> consistent (snd (main w args env))"
  proof
    assume c: "consistent (snd (main w args env))"
    from c assms(2,4) have "detectedSourceLangVar (snd (main w args env)) = Some (detectedSourceLang r1)"
      by (simp add: consistent_def)
    moreover from c assms(3,5) have "detectedSourceLangVar (snd (main w args env)) = Some (detectedSourceLang r2)"
      by (simp add: consistent_def)
    ultimately show False using assms(6) by simp
  qed
  with main_consistent [OF assms(1), of w env] show ?thesis by simp
qed

text \<open>The run above: English twice, then French.\<close>

theorem mismatch_aborts_at_once_witness:
  "\<not> truthy (arg french_args ''source-lang'') \<and>
   \<lparr>translated_text = ''fr home'', billedCharacters = 4, detectedSourceLang = ''EN''\<rparr>
     \<in> set (results (trace (snd (main mixed_world french_args no_env)))) \<and>
   \<lparr>translated_text = ''fr about-us'', billedCharacters = 8, detectedSourceLang = ''FR''\<rparr>
     \<in> set (results (trace (snd (main mixed_world french_args no_env)))) \<and>
   fst (main mixed_world french_args no_env) = ProcessExit 1 \<and>
   ends_with_mismatch (trace (snd (main mixed_world french_args no_env)))"
proof -
  have s: "\<not> truthy (arg french_args ''source-lang'')"
    by (simp add: arg_def french_args_def example_args_def)
  have m1: "\<lparr>translated_text = ''fr home'', billedCharacters = 4, detectedSourceLang = ''EN''\<rparr>
     \<in> set (results (trace (snd (main mixed_world french_args no_env))))"
    and m2: "\<lparr>translated_text = ''fr about-us'', billedCharacters = 8, detectedSourceLang = ''FR''\<rparr>
     \<in> set (results (trace (snd (main mixed_world french_args no_env))))"
    by (simp_all add: mixed_run)
  from mismatch_aborts_at_once [OF s m1 m2] s m1 m2 show ?thesis
    by simp
qed

section \<open>C2: flags and environment variables\<close>

text \<open>
  \<^bold>\<open>C2, as stated, fails.\<close> The value is taken with \<^verbatim>\<open>args.token || process.env...\<close>,
  so a flag that is supplied with a falsy value (the empty string, 0, \<^verbatim>\<open>false\<close>) gives
  way to the environment variable: with \<^verbatim>\<open>--token ""\<close> and the token set in the
  environment, the environment's token is used.
\<close>

theorem flag_wins_counterexample:
  "has_arg empty_token_args ''token'' \<and>
   arg empty_token_args ''token'' = JStr [] \<and>
   resolve_config empty_token_args token_env init_state =
     (Inr (example_config\<lparr>oauthToken := JStr ''fr0m-env'', region := JStr ''us''\<rparr>), init_state)"
  by (simp add: run_defs example_defs)

text \<open>
  \<^bold>\<open>C2, amended.\<close> For each of token, space, region and deepl-api-key: when the flag is
  supplied with a truthy value (a non-empty string, a non-zero number, \<^verbatim>\<open>true\<close>), that
  value is the one used, whatever the environment variable holds; when the flag is absent
  or its value is falsy, the environment variable is used (for the region: \<^verbatim>\<open>eu\<close> when
  neither the flag nor a non-empty variable is given).
\<close>

theorem flag_wins_when_truthy:
  assumes "resolve_config args env st = (Inr cfg, st')"
  shows "(truthy (arg args ''token'') \<longrightarrow> oauthToken cfg = arg args ''token'') \<and>
         (\<not> truthy (arg args ''token'') \<longrightarrow> oauthToken cfg = env_value env ''STORYBLOK_OAUTH_TOKEN'') \<and>
         (truthy (arg args ''space'') \<longrightarrow> spaceId cfg = arg args ''space'') \<and>
         (\<not> truthy (arg args ''space'') \<longrightarrow> spaceId cfg = env_value env ''STORYBLOK_SPACE_ID'') \<and>
         (truthy (arg args ''deepl-api-key'') \<longrightarrow> deeplApiKey cfg = arg args ''deepl-api-key'') \<and>
         (\<not> truthy (arg args ''deepl-api-key'') \<longrightarrow> deeplApiKey cfg = env_value env ''DEEPL_API_KEY'') \<and>
         (truthy (arg args ''region'') \<longrightarrow> region cfg = arg args ''region'') \<and>
         (\<not> truthy (arg args ''region'') \<and> truthy (env_value env ''STORYBLOK_REGION'') \<longrightarrow>
            region cfg = env_value env ''STORYBLOK_REGION'') \<and>
         (\<not> truthy (arg args ''region'') \<and> \<not> truthy (env_value env ''STORYBLOK_REGION'') \<longrightarrow>
            \<not> has_arg args ''region'' \<and> region cfg = JStr ''eu'')"
proof -
  note c = resolve_config_Inr [OF assms]
  have r: "resolve_region args env = Some (region cfg)" by (rule c)
  have "(truthy (arg args ''region'') \<longrightarrow> region cfg = arg args ''region'') \<and>
         (\<not> truthy (arg args ''region'') \<and> truthy (env_value env ''STORYBLOK_REGION'') \<longrightarrow>
            region cfg = env_value env ''STORYBLOK_REGION'') \<and>
         (\<not> truthy (arg args ''region'') \<and> \<not> truthy (env_value env ''STORYBLOK_REGION'') \<longrightarrow>
            \<not> has_arg args ''region'' \<and> region cfg = JStr ''eu'')"
    using r
    by (auto simp: resolve_region_def js_or_def regions_def Let_def has_arg_def arg_def
             split: if_splits option.splits)
  with c(2,3,5) show ?thesis
    by (simp add: js_or_def)
qed

text \<open>
  The token is given both ways and the flag wins; the region is given in the environment
  only.
\<close>

theorem flag_wins_when_truthy_witness:
  "resolve_config example_args token_env init_state =
     (Inr (example_config\<lparr>region := JStr ''us''\<rparr>), init_state) \<and>
   truthy (arg example_args ''token'') \<and>
   env_value token_env ''STORYBLOK_OAUTH_TOKEN'' = JStr ''fr0m-env'' \<and>
   oauthToken (example_config\<lparr>region := JStr ''us''\<rparr>) = arg example_args ''token'' \<and>
   \<not> truthy (arg example_args ''region'') \<and>
   truthy (env_value token_env ''STORYBLOK_REGION'') \<and>
   region (example_config\<lparr>region := JStr ''us''\<rparr>) = env_value token_env ''STORYBLOK_REGION''"
proof -
  have c: "resolve_config example_args token_env init_state =
             (Inr (example_config\<lparr>region := JStr ''us''\<rparr>), init_state)"
    by (simp add: run_defs example_defs)
  have t: "truthy (arg example_args ''token'') \<and> \<not> truthy (arg example_args ''region'') \<and>
           truthy (env_value token_env ''STORYBLOK_REGION'') \<and>
           env_value token_env ''STORYBLOK_OAUTH_TOKEN'' = JStr ''fr0m-env''"
    by (simp add: arg_def env_value_def example_args_def token_env_def)
  from flag_wins_when_truthy [OF c] c t show ?thesis
    by simp
qed

section \<open>C3: when a story is written\<close>

text \<open>
  \<^bold>\<open>C3, as stated, fails.\<close> The claim has the write performed whenever an entry was
  added. Between the check of line 243 and the PUT of line 261 stands the dry-run check
  (lines 254 to 259): in dry-run mode the loop over the locales adds an entry to "home"
  and no write follows.
\<close>

theorem write_iff_entries_added_counterexample:
  "process_locales example_world dry_config (locales dry_config) story_home
       (story_header dry_config story_home init_state) =
     (Inr (story_home\<lparr>translated_slugs_attributes :=
             Some [\<lparr>entry_lang = ''de'', entry_slug = ''de-home'', entry_name = ''de Home''\<rparr>]\<rparr>),
      \<lparr>detectedSourceLangVar = Some ''EN'', totalBilledCharacters = 8,
       trace =
         [TranslateText ''home'' JNull ''de''
            (Some \<lparr>translated_text = ''de home'', billedCharacters = 4,
                    detectedSourceLang = ''EN''\<rparr>),
          TranslateText ''Home'' JNull ''de''
            (Some \<lparr>translated_text = ''de Home'', billedCharacters = 4,
                    detectedSourceLang = ''EN''\<rparr>)]\<rparr>) \<and>
   fst (process_story example_world dry_config story_home init_state) = Inr () \<and>
   filter is_put (trace (snd (process_story example_world dry_config story_home init_state))) = []"
  by (simp add: run_defs example_defs)

text \<open>
  \<^bold>\<open>C3, amended.\<close> For every story that is fetched without a
  \<^verbatim>\<open>translated_slugs_attributes\<close> field, after its per-locale loop completes: when
  \<^verbatim>\<open>--dry-run\<close> is not set, the write (one PUT, of the story as the loop left it) is
  performed if and only if at least one translation entry was added to the story during
  this run; when \<^verbatim>\<open>--dry-run\<close> is set, no write is performed; and when no entry was
  added the story is skipped, "No translations needed." being logged in verbose mode only.
\<close>

theorem write_iff_entries_added:
  assumes "process_locales w cfg (locales cfg) s (story_header cfg s st) = (Inr s', st1)"
    and "translated_slugs_attributes s = None"
  shows "filter is_put (drop (length (trace st1)) (trace (snd (process_story w cfg s st)))) =
           (if attributes_of s' \<noteq> attributes_of s \<and> \<not> dry_run cfg
            then [Put (spaceId cfg) (story_id s)
                    \<lparr>payload_story = s', payload_publish = publish cfg\<rparr>]
            else []) \<and>
         (attributes_of s' = attributes_of s \<longrightarrow>
            process_story w cfg s st = (Inr (), log_if (verbose cfg) NoTranslationsNeeded st1))"
proof (cases "translated_slugs_attributes s'")
  case None
  with process_locales_added [OF assms] have "attributes_of s' = attributes_of s" by simp
  with assms(1) None show ?thesis
    by (simp add: process_story_def)
next
  case (Some attrs)
  with process_locales_added [OF assms] have "attributes_of s' \<noteq> attributes_of s"
    and "story_id s' = story_id s" by simp_all
  with assms(1) Some show ?thesis
    by (simp add: process_story_def Let_def)
qed

text \<open>
  Without \<^verbatim>\<open>--dry-run\<close>: "home" gets a German entry and is written; "about-us" has a
  published German translation, gets no entry and is skipped silently.
\<close>

theorem write_iff_entries_added_witness:
  "process_locales example_world example_config (locales example_config) story_home
       (story_header example_config story_home init_state) =
     (Inr (story_home\<lparr>translated_slugs_attributes :=
             Some [\<lparr>entry_lang = ''de'', entry_slug = ''de-home'', entry_name = ''de Home''\<rparr>]\<rparr>),
      \<lparr>detectedSourceLangVar = Some ''EN'', totalBilledCharacters = 8,
       trace =
         [TranslateText ''home'' JNull ''de''
            (Some \<lparr>translated_text = ''de home'', billedCharacters = 4,
                    detectedSourceLang = ''EN''\<rparr>),
          TranslateText ''Home'' JNull ''de''
            (Some \<lparr>translated_text = ''de Home'', billedCharacters = 4,
                    detectedSourceLang = ''EN''\<rparr>)]\<rparr>) \<and>
   translated_slugs_attributes story_home = None \<and>
   filter is_put (drop 2 (trace (snd (process_story example_world example_config story_home init_state)))) =
     [Put (JNum 12345) 1
        \<lparr>payload_story =
           story_home\<lparr>translated_slugs_attributes :=
             Some [\<lparr>entry_lang = ''de'', entry_slug = ''de-home'', entry_name = ''de Home''\<rparr>]\<rparr>,
         payload_publish = False\<rparr>] \<and>
   process_locales example_world example_config (locales example_config) story_about_us
       (story_header example_config story_about_us init_state) = (Inr story_about_us, init_state) \<and>
   translated_slugs_attributes story_about_us = None \<and>
   process_story example_world example_config story_about_us init_state = (Inr (), init_state)"
proof -
  have v: "\<not> verbose example_config"
    and d: "\<not> dry_run example_config" and sp: "spaceId example_config = JNum 12345"
    and pb: "\<not> publish example_config"
    by (simp_all add: example_config_def)
  have a: "process_locales example_world example_config (locales example_config) story_home
       (story_header example_config story_home init_state) =
     (Inr (story_home\<lparr>translated_slugs_attributes :=
             Some [\<lparr>entry_lang = ''de'', entry_slug = ''de-home'', entry_name = ''de Home''\<rparr>]\<rparr>),
      \<lparr>detectedSourceLangVar = Some ''EN'', totalBilledCharacters = 8,
       trace =
         [TranslateText ''home'' JNull ''de''
            (Some \<lparr>translated_text = ''de home'', billedCharacters = 4,
                    detectedSourceLang = ''EN''\<rparr>),
          TranslateText ''Home'' JNull ''de''
            (Some \<lparr>translated_text = ''de Home'', billedCharacters = 4,
                    detectedSourceLang = ''EN''\<rparr>)]\<rparr>)"
    by (simp add: run_defs example_defs)
  have b: "process_locales example_world example_config (locales example_config) story_about_us
       (story_header example_config story_about_us init_state) = (Inr story_about_us, init_state)"
    by (simp add: run_defs example_defs)
  have n: "translated_slugs_attributes story_home = None"
          "translated_slugs_attributes story_about_us = None"
    and i: "story_id story_home = 1"
    by (simp_all add: story_home_def story_about_us_def)
  have w1: "filter is_put (drop 2 (trace (snd (process_story example_world example_config story_home init_state)))) =
     [Put (JNum 12345) 1
        \<lparr>payload_story =
           story_home\<lparr>translated_slugs_attributes :=
             Some [\<lparr>entry_lang = ''de'', entry_slug = ''de-home'', entry_name = ''de Home''\<rparr>]\<rparr>,
         payload_publish = False\<rparr>]"
    using write_iff_entries_added [OF a n(1)] by (simp add: attributes_of_def n d sp pb i numeral_2_eq_2)
  have w2: "process_story example_world example_config story_about_us init_state = (Inr (), init_state)"
    using write_iff_entries_added [OF b n(2)] by (simp add: log_if_def v)
  from a b n w1 w2 show ?thesis by simp
qed

section \<open>C4: the billed-character total\<close>

text \<open>
  \<^bold>\<open>C4.\<close> However a run ends, the billed-character total equals the sum of the billed
  counts of every translation call that returned during the run; this includes a call that
  triggers the source-language abort, since it is in the trace and was added before the
  check. A run that finishes reports this sum in its last line. For a locale that is
  skipped (published translation present, no \<^verbatim>\<open>--overwrite\<close>) the story's iteration
  makes no translation call.
\<close>

theorem billed_total_is_sum_of_calls:
  "totalBilledCharacters (snd (main w args env)) = billed_total (trace (snd (main w args env))) \<and>
   (fst (main w args env) = ProcessExit 0 \<and> \<not> has_arg args ''help'' \<longrightarrow>
      last (trace (snd (main w args env))) =
        Log (TotalBilled (billed_total (trace (snd (main w args env)))))) \<and>
   (localized_paths s = Some lps \<and> skip_locale cfg lps l \<longrightarrow>
      filter is_translate (trace (snd (process_locale w cfg l s st))) =
        filter is_translate (trace st))"
proof (intro conjI impI)
  show "totalBilledCharacters (snd (main w args env)) = billed_total (trace (snd (main w args env)))"
    by (rule main_billed)
next
  assume a: "fst (main w args env) = ProcessExit 0 \<and> \<not> has_arg args ''help''"
  then obtain st6 where
    f: "snd (main w args env) = log (TotalBilled (totalBilledCharacters st6)) (log Finished (log Blank st6))"
    using main_success by blast
  have "totalBilledCharacters (snd (main w args env)) = totalBilledCharacters st6"
    by (simp add: f)
  with main_billed [of w args env] f
  show "last (trace (snd (main w args env))) =
          Log (TotalBilled (billed_total (trace (snd (main w args env)))))"
    by simp
next
  assume "localized_paths s = Some lps \<and> skip_locale cfg lps l"
  then show "filter is_translate (trace (snd (process_locale w cfg l s st))) =
               filter is_translate (trace st)"
    by (simp add: process_locale_skip)
qed

text \<open>
  The run on the small space bills 4 + 4 characters and reports 8; "about-us" has a
  published German translation and causes no call.
\<close>

theorem billed_total_is_sum_of_calls_witness:
  "fst (main example_world example_args no_env) = ProcessExit 0 \<and>
   \<not> has_arg example_args ''help'' \<and>
   billed_total (trace (snd (main example_world example_args no_env))) = 8 \<and>
   last (trace (snd (main example_world example_args no_env))) = Log (TotalBilled 8) \<and>
   localized_paths story_about_us =
     Some [\<lparr>lang = ''de'', published = True\<rparr>, \<lparr>lang = ''fr'', published = False\<rparr>] \<and>
   skip_locale example_config
     [\<lparr>lang = ''de'', published = True\<rparr>, \<lparr>lang = ''fr'', published = False\<rparr>] ''de'' \<and>
   filter is_translate
     (trace (snd (process_locale example_world example_config ''de'' story_about_us init_state))) = []"
proof -
  have h: "\<not> has_arg example_args ''help''"
    by (simp add: has_arg_def example_args_def)
  have k: "localized_paths story_about_us =
             Some [\<lparr>lang = ''de'', published = True\<rparr>, \<lparr>lang = ''fr'', published = False\<rparr>] \<and>
           skip_locale example_config
             [\<lparr>lang = ''de'', published = True\<rparr>, \<lparr>lang = ''fr'', published = False\<rparr>] ''de''"
    by (simp add: story_about_us_def skip_locale_def example_config_def)
  from billed_total_is_sum_of_calls [of example_world example_args no_env story_about_us
         "[\<lparr>lang = ''de'', published = True\<rparr>, \<lparr>lang = ''fr'', published = False\<rparr>]"
         example_config "''de''" init_state] h k
  show ?thesis
    by (simp add: example_run init_state_def)
qed

section \<open>C5: the decision for one story and one locale\<close>




section \<open>C6: dry-run mode\<close>

text \<open>
  \<^bold>\<open>C6, as stated, fails.\<close> The claim lets every run with \<^verbatim>\<open>--dry-run\<close> perform
  translations and reach the success exit. The checks that abort a run do not depend on the
  mode: with \<^verbatim>\<open>--dry-run\<close> on a space whose story has no \<^verbatim>\<open>localized_paths\<close> the run
  exits with code 1 and translates nothing.
\<close>

theorem dry_run_counterexample:
  "truthy (arg dry_args ''dry-run'') \<and>
   fst (main plain_world dry_args no_env) = ProcessExit 1 \<and>
   filter is_translate (trace (snd (main plain_world dry_args no_env))) = [] \<and>
   last (trace (snd (main plain_world dry_args no_env))) = Log (ErrLocalizedPaths ''legal/imprint'')"
  by (simp add: plain_dry_run) (simp add: arg_def dry_args_def)

text \<open>
  \<^bold>\<open>C6, amended.\<close> When \<^verbatim>\<open>--dry-run\<close> is set, no story write (PUT) is ever issued
  during the entire run, for any number of stories and locales; and the flag suppresses
  nothing else: the run makes the same translation calls, bills the same total and ends
  with the same exit status as the run without the flag whose writes all succeed. So it
  reaches the success exit exactly when that run does.
\<close>

theorem dry_run_writes_nothing:
  assumes "truthy (arg args ''dry-run'')"
  shows "filter is_put (trace (snd (main w args env))) = [] \<and>
         ((\<forall>sp i p. put_story w sp i p) \<longrightarrow>
            fst (main w args env) = fst (main w (args(''dry-run'' := None)) env) \<and>
            filter is_translate (trace (snd (main w args env))) =
              filter is_translate (trace (snd (main w (args(''dry-run'' := None)) env))) \<and>
            totalBilledCharacters (snd (main w args env)) =
              totalBilledCharacters (snd (main w (args(''dry-run'' := None)) env)))"
proof (intro conjI impI)
  show "filter is_put (trace (snd (main w args env))) = []"
    using assms by (rule main_dry_puts)
next
  assume a: "\<forall>sp i p. put_story w sp i p"
  from main_dry_live [OF assms, of w env] a
  have s: "fst (main w args env) = fst (main w (args(''dry-run'' := None)) env)"
    and c: "core (snd (main w args env)) = core (snd (main w (args(''dry-run'' := None)) env))"
    by simp_all
  show "fst (main w args env) = fst (main w (args(''dry-run'' := None)) env)" by (rule s)
  show "filter is_translate (trace (snd (main w args env))) =
              filter is_translate (trace (snd (main w (args(''dry-run'' := None)) env)))"
    using c by (simp add: core_def)
  show "totalBilledCharacters (snd (main w args env)) =
              totalBilledCharacters (snd (main w (args(''dry-run'' := None)) env))"
    using c by (simp add: core_def)
qed

text \<open>The small run with and without \<^verbatim>\<open>--dry-run\<close>: two calls, 8 characters, exit code 0.\<close>

theorem dry_run_writes_nothing_witness:
  "truthy (arg dry_args ''dry-run'') \<and>
   (\<forall>sp i p. put_story example_world sp i p) \<and>
   filter is_put (trace (snd (main example_world dry_args no_env))) = [] \<and>
   fst (main example_world dry_args no_env) = ProcessExit 0 \<and>
   fst (main example_world (dry_args(''dry-run'' := None)) no_env) = ProcessExit 0 \<and>
   length (filter is_translate (trace (snd (main example_world dry_args no_env)))) = 2 \<and>
   length (filter is_translate
             (trace (snd (main example_world (dry_args(''dry-run'' := None)) no_env)))) = 2 \<and>
   totalBilledCharacters (snd (main example_world (dry_args(''dry-run'' := None)) no_env)) = 8"
proof -
  have d: "truthy (arg dry_args ''dry-run'')"
    by (simp add: arg_def dry_args_def)
  have p: "\<forall>sp i p. put_story example_world sp i p"
    by (simp add: example_world_def)
  from dry_run_writes_nothing [OF d, of example_world no_env] p
  have "fst (main example_world (dry_args(''dry-run'' := None)) no_env) =
          fst (main example_world dry_args no_env)"
    and "filter is_translate (trace (snd (main example_world (dry_args(''dry-run'' := None)) no_env))) =
           filter is_translate (trace (snd (main example_world dry_args no_env)))"
    and "totalBilledCharacters (snd (main example_world (dry_args(''dry-run'' := None)) no_env)) =
           totalBilledCharacters (snd (main example_world dry_args no_env))"
    and "filter is_put (trace (snd (main example_world dry_args no_env))) = []"
    by simp_all
  with d p show ?thesis
    by (simp add: dry_run_example)
qed

section \<open>C7: missing credentials\<close>

text \<open>
  \<^bold>\<open>C7, as stated, fails.\<close> The claim lets every invocation without a credential exit
  with code 1. With \<^verbatim>\<open>--help\<close> the script prints the usage text and exits with code 0
  before it looks at any credential (lines 16 to 69).
\<close>

theorem missing_credential_counterexample:
  "\<not> has_arg help_args ''token'' \<and> no_env ''STORYBLOK_OAUTH_TOKEN'' = None \<and>
   \<not> has_arg help_args ''space'' \<and> no_env ''STORYBLOK_SPACE_ID'' = None \<and>
   \<not> has_arg help_args ''deepl-api-key'' \<and> no_env ''DEEPL_API_KEY'' = None \<and>
   main example_world help_args no_env = (ProcessExit 0, init_state\<lparr>trace := [Log Usage]\<rparr>)"
  by (simp add: main_def has_arg_def help_args_def no_env_def log_def emit_def init_state_def)

text \<open>
  \<^bold>\<open>C7, amended.\<close> If \<^verbatim>\<open>--help\<close> is not given and one of the three required
  credentials (OAuth token, space id, DeepL API key) is supplied neither as its flag nor
  as a non-empty environment variable, the process exits with code 1 before any network
  call, having printed exactly one line: the error naming the first missing credential in
  the order token, space id, DeepL key; only when the DeepL key alone is missing and the
  region is invalid, the invalid-region error is printed in its place (the region is
  checked first).
\<close>

theorem missing_credential_exits:
  assumes "\<not> has_arg args ''help''"
    and "(\<not> has_arg args ''token'' \<and> \<not> truthy (env_value env ''STORYBLOK_OAUTH_TOKEN'')) \<or>
         (\<not> has_arg args ''space'' \<and> \<not> truthy (env_value env ''STORYBLOK_SPACE_ID'')) \<or>
         (\<not> has_arg args ''deepl-api-key'' \<and> \<not> truthy (env_value env ''DEEPL_API_KEY''))"
  shows "main w args env =
           (ProcessExit 1,
            init_state\<lparr>trace :=
              [Log (if \<not> has_arg args ''token'' \<and> \<not> truthy (env_value env ''STORYBLOK_OAUTH_TOKEN'')
                    then ErrToken
                    else if \<not> has_arg args ''space'' \<and> \<not> truthy (env_value env ''STORYBLOK_SPACE_ID'')
                    then ErrSpace
                    else if resolve_region args env = None then ErrRegion
                    else ErrDeeplApiKey)]\<rparr>)"
  using assms
  by (auto simp: main_def resolve_config_def log_def emit_def init_state_def split: option.splits)

text \<open>\<^verbatim>\<open>--token t0ken --space 12345\<close> without a DeepL key in the environment.\<close>

theorem missing_credential_exits_witness:
  "\<not> has_arg keyless_args ''help'' \<and>
   \<not> has_arg keyless_args ''deepl-api-key'' \<and> \<not> truthy (env_value no_env ''DEEPL_API_KEY'') \<and>
   main example_world keyless_args no_env = (ProcessExit 1, init_state\<lparr>trace := [Log ErrDeeplApiKey]\<rparr>)"
proof -
  have h: "\<not> has_arg keyless_args ''help''"
    and k: "\<not> has_arg keyless_args ''deepl-api-key'' \<and> \<not> truthy (env_value no_env ''DEEPL_API_KEY'')"
    by (simp_all add: has_arg_def keyless_args_def env_value_def no_env_def)
  from missing_credential_exits [of keyless_args no_env example_world, OF h] k
  show ?thesis using h
    by (simp add: has_arg_def keyless_args_def env_value_def no_env_def resolve_region_def)
qed

section \<open>C8: which stories are processed\<close>



section \<open>C9: slugifying twice\<close>

lemma slugify_char_fixed:
  "allowed (whitespace_to_hyphen (strip_diacritic (lowercase c))) \<Longrightarrow>
   whitespace_to_hyphen (strip_diacritic (lowercase
     (whitespace_to_hyphen (strip_diacritic (lowercase c))))) =
   whitespace_to_hyphen (strip_diacritic (lowercase c))"
  by (cases c) simp_all

text \<open>
  \<^bold>\<open>C9.\<close> Slugification, as the specification describes it, is idempotent: for every
  string \<open>s\<close>, slugifying the slug of \<open>s\<close> returns the slug of \<open>s\<close> unchanged. Every
  character of a slug is a lower-case letter without diacritic, a digit or a hyphen, and
  each of the four rules leaves such a character as it is.
\<close>

theorem slugify_idempotent: "slugify (slugify s) = slugify s"
proof (induction s)
  case Nil
  show ?case by (simp add: slugify_def)
next
  case (Cons c s)
  then show ?case
    using slugify_char_fixed [of c] by (simp add: slugify_def)
qed

section \<open>C10: what is written back\<close>



end
